theory Spec2Isabelle
  imports Main "HOL-Library.Word"
begin

section \<open>JSON documents\<close>

text \<open>
  The engine of \<^verbatim>\<open>SinricPro.h\<close> works on ArduinoJson documents. The library is not part
  of the repository; a document is modelled by the tree it holds, and only the accessors
  the engine uses are defined: \<^verbatim>\<open>doc[key]\<close>, \<^verbatim>\<open>doc[key] = v\<close>,
  \<^verbatim>\<open>containsKey\<close>, and the conversions \<^verbatim>\<open>v | ""\<close>, \<^verbatim>\<open>v | 0\<close> and
  \<^verbatim>\<open>const char* p = v\<close>.
\<close>

datatype json =
    JNull
  | JBool bool
  | JInt int
  | JString string
  | JObject "(string \<times> json) list"

fun lookupKey :: "(string \<times> json) list \<Rightarrow> string \<Rightarrow> json option" where
  "lookupKey [] k = None"
| "lookupKey ((k', v) # kvs) k = (if k' = k then Some v else lookupKey kvs k)"

fun updateKey :: "(string \<times> json) list \<Rightarrow> string \<Rightarrow> json \<Rightarrow> (string \<times> json) list" where
  "updateKey [] k v = [(k, v)]"
| "updateKey ((k', v') # kvs) k v = (if k' = k then (k, v) # kvs else (k', v') # updateKey kvs k v)"

text \<open>\<^verbatim>\<open>doc[key]\<close> read: a null variant when the key is absent or \<open>doc\<close> is no object.\<close>

fun getMember :: "json \<Rightarrow> string \<Rightarrow> json" where
  "getMember (JObject kvs) k = (case lookupKey kvs k of Some v \<Rightarrow> v | None \<Rightarrow> JNull)"
| "getMember _ k = JNull"

fun containsKey :: "json \<Rightarrow> string \<Rightarrow> bool" where
  "containsKey (JObject kvs) k = (lookupKey kvs k \<noteq> None)"
| "containsKey _ k = False"

text \<open>\<^verbatim>\<open>doc[key] = v\<close>: a null variant becomes an object; another non-object is left alone.\<close>

fun setMember :: "json \<Rightarrow> string \<Rightarrow> json \<Rightarrow> json" where
  "setMember (JObject kvs) k v = JObject (updateKey kvs k v)"
| "setMember JNull k v = JObject [(k, v)]"
| "setMember j k v = j"

text \<open>\<^verbatim>\<open>doc[k1][k2] = v\<close>.\<close>

definition setMember2 :: "json \<Rightarrow> string \<Rightarrow> string \<Rightarrow> json \<Rightarrow> json" where
  "setMember2 doc k1 k2 v = setMember doc k1 (setMember (getMember doc k1) k2 v)"

text \<open>\<^verbatim>\<open>v | ""\<close> assigned to a \<^verbatim>\<open>String\<close>.\<close>

fun asString_or :: "json \<Rightarrow> string \<Rightarrow> string" where
  "asString_or (JString s) d = s"
| "asString_or _ d = d"

text \<open>\<^verbatim>\<open>const char* p = v\<close>: the null pointer (\<open>None\<close>) unless \<open>v\<close> is a string.\<close>

fun asCStr :: "json \<Rightarrow> string option" where
  "asCStr (JString s) = Some s"
| "asCStr _ = None"

text \<open>
  \<^verbatim>\<open>unsigned long t = v | 0\<close>: the default is an \<^verbatim>\<open>int\<close>, so the variant's value is taken
  when it is an integer that fits an \<^verbatim>\<open>int\<close> (32 bits on the ESP8266 and ESP32), and
  0 otherwise; the \<^verbatim>\<open>int\<close> is then converted to the 32-bit \<^verbatim>\<open>unsigned long\<close>.
\<close>

type_synonym ulong = "32 word"

fun asULong_or0 :: "json \<Rightarrow> ulong" where
  "asULong_or0 (JInt i) = (if - (2 ^ 31) \<le> i \<and> i < 2 ^ 31 then word_of_int i else 0)"
| "asULong_or0 _ = 0"

text \<open>
  \<^verbatim>\<open>String messageType = v; messageType == t\<close> for a literal \<open>t\<close> that is no JSON text of a
  null, number, boolean or object: true exactly when \<open>v\<close> is the string \<open>t\<close>.
\<close>

definition stringIs :: "json \<Rightarrow> string \<Rightarrow> bool" where
  "stringIs v t = (v = JString t)"

section \<open>Collaborators of the engine\<close>

text \<open>
  \<^verbatim>\<open>interface_t\<close>, declared in another header of the library: the origin tag of a queued
  frame.
  \<^verbatim>\<open>handleSendQueue\<close> switches on \<^verbatim>\<open>IF_WEBSOCKET\<close> and \<^verbatim>\<open>IF_UDP\<close> and has a
  \<^verbatim>\<open>default\<close> branch, which \<open>IF_UNKNOWN\<close> stands for.
\<close>

datatype interface_t = IF_UNKNOWN | IF_WEBSOCKET | IF_UDP

record SinricProMessage =
  getInterface :: interface_t
  getMessage :: string

text \<open>The calls the engine makes on its two transports, in the order it makes them.\<close>

datatype transport_call =
    WsBegin string string string
  | WsHandle
  | WsSend string
  | WsStop
  | UdpBegin
  | UdpHandle
  | UdpSend string

text \<open>
  The functions the engine calls that other headers and libraries define, taken as
  parameters: the JSON parser and printer, the signature helpers of
  \<^verbatim>\<open>SinricProSignature.h\<close>, the validity checks of \<^verbatim>\<open>SinricProId.h\<close>, and the
  Arduino clock. \<open>millis k\<close> is the reading (32-bit milliseconds) that the \<open>k\<close>-th call
  of \<^verbatim>\<open>millis()\<close> returns.
\<close>

record env =
  deserializeJson :: "string \<Rightarrow> json"
  serializeJson :: "json \<Rightarrow> string"
  extractPayload :: "string \<Rightarrow> string"
  calculateSignature :: "string \<Rightarrow> string \<Rightarrow> string"
  signMessage :: "string \<Rightarrow> json \<Rightarrow> json"
  millis :: "nat \<Rightarrow> ulong"
  DeviceId_isValid :: "string \<Rightarrow> bool"
  AppKey_isValid :: "string \<Rightarrow> bool"
  AppSecret_isValid :: "string \<Rightarrow> bool"

text \<open>
  \<^verbatim>\<open>SinricProRequest\<close>: what a device's request handler is given. The handler writes its
  output into \<open>response_value\<close>, its return value is the success flag, and it may call
  \<^verbatim>\<open>setResponseMessage\<close>; the three are the handler's result here.
\<close>

record SinricProRequest =
  req_action :: string
  req_instance :: string
  request_value :: json
  response_value :: json

record handler_result =
  hr_success :: bool
  hr_response_value :: json
  hr_setResponseMessage :: "string option"

text \<open>
  A registered device: its id, in string form (\<^verbatim>\<open>DeviceId\<close> is a class of
  \<^verbatim>\<open>SinricProId.h\<close>; two ids are equal when their string forms are), and its request
  handler.
\<close>

record device =
  getDeviceId :: string
  dev_handleRequest :: "SinricProRequest \<Rightarrow> handler_result"

section \<open>The engine state\<close>

text \<open>
  The members of \<^verbatim>\<open>SinricProClass\<close>, the static flag of \<^verbatim>\<open>handle()\<close>, and what the
  collaborators make observable: whether the websocket reports connected, the transport
  calls made so far, the registry positions of the devices whose handler was invoked so
  far, and the number of clock readings taken so far.
\<close>

record engine =
  devices :: "device list"
  socketAuthToken :: string
  signingKey :: string
  serverURL :: string
  receiveQueue :: "SinricProMessage list"
  sendQueue :: "SinricProMessage list"
  baseTimestamp :: ulong
  begin_flag :: bool
  responseMessageStr :: string
  begin_error :: bool
  ws_isConnected :: bool
  transport_calls :: "transport_call list"
  handler_calls :: "nat list"
  millis_calls :: nat

definition isConnected :: "engine \<Rightarrow> bool" where
  "isConnected s = ws_isConnected s"

text \<open>One call of \<^verbatim>\<open>millis()\<close>: the next reading of the clock.\<close>

definition millis_read :: "env \<Rightarrow> engine \<Rightarrow> ulong \<times> engine" where
  "millis_read e s = (millis e (millis_calls s), s\<lparr>millis_calls := Suc (millis_calls s)\<rparr>)"

text \<open>\<^verbatim>\<open>getTimestamp() { return baseTimestamp + (millis()/1000); }\<close>\<close>

definition getTimestamp :: "env \<Rightarrow> engine \<Rightarrow> ulong \<times> engine" where
  "getTimestamp e s = (case millis_read e s of (m, s') \<Rightarrow> (baseTimestamp s + m div 1000, s'))"

section \<open>Timestamp synchronisation\<close>

definition extractTimestamp :: "env \<Rightarrow> engine \<Rightarrow> json \<Rightarrow> engine" where
  "extractTimestamp e s message =
     (let tempTimestamp = asULong_or0 (getMember message ''timestamp'') in
      if tempTimestamp \<noteq> 0 then
        (case millis_read e s of (m, s') \<Rightarrow> s'\<lparr>baseTimestamp := tempTimestamp - m div 1000\<rparr>)
      else
        let tempTimestamp = asULong_or0 (getMember (getMember message ''payload'') ''createdAt'') in
        if tempTimestamp \<noteq> 0 then
          (case millis_read e s of (m, s') \<Rightarrow> s'\<lparr>baseTimestamp := tempTimestamp - m div 1000\<rparr>)
        else s)"

section \<open>The transports, as the engine sees them\<close>

text \<open>
  Modelled from the spec: the session transport (\<^verbatim>\<open>SinricProWebsocket.h\<close>) and the
  discovery transport (\<^verbatim>\<open>SinricProUDP.h\<close>) are headers not covered here. Each call the
  engine makes on them is recorded. \<^verbatim>\<open>begin\<close> starts a connection attempt that a
  later poll completes, \<^verbatim>\<open>stop\<close> ends the session, and a poll (\<^verbatim>\<open>handle\<close>) pushes the
  frames that arrived into the inbound queue, tagged with their origin, and settles
  what \<^verbatim>\<open>isConnected()\<close> reports. What arrives during one poll is the engine's input.
\<close>

record poll_input =
  ws_frames :: "string list"
  ws_connected_now :: bool
  udp_frames :: "string list"

definition transport_call :: "transport_call \<Rightarrow> engine \<Rightarrow> engine" where
  "transport_call c s = s\<lparr>transport_calls := transport_calls s @ [c]\<rparr>"

definition websocket_begin :: "string \<Rightarrow> string \<Rightarrow> string \<Rightarrow> engine \<Rightarrow> engine" where
  "websocket_begin url token deviceList s = transport_call (WsBegin url token deviceList) s"

definition websocket_stop :: "engine \<Rightarrow> engine" where
  "websocket_stop s = (transport_call WsStop s)\<lparr>ws_isConnected := False\<rparr>"

definition websocket_sendMessage :: "string \<Rightarrow> engine \<Rightarrow> engine" where
  "websocket_sendMessage m s = transport_call (WsSend m) s"

definition websocket_handle :: "poll_input \<Rightarrow> engine \<Rightarrow> engine" where
  "websocket_handle inp s =
     (transport_call WsHandle s)
       \<lparr>receiveQueue := receiveQueue s @
          map (\<lambda>m. \<lparr>getInterface = IF_WEBSOCKET, getMessage = m\<rparr>) (ws_frames inp),
        ws_isConnected := ws_connected_now inp\<rparr>"

definition udp_begin :: "engine \<Rightarrow> engine" where
  "udp_begin s = transport_call UdpBegin s"

definition udp_sendMessage :: "string \<Rightarrow> engine \<Rightarrow> engine" where
  "udp_sendMessage m s = transport_call (UdpSend m) s"

definition udp_handle :: "poll_input \<Rightarrow> engine \<Rightarrow> engine" where
  "udp_handle inp s =
     (transport_call UdpHandle s)
       \<lparr>receiveQueue := receiveQueue s @
          map (\<lambda>m. \<lparr>getInterface = IF_UDP, getMessage = m\<rparr>) (udp_frames inp)\<rparr>"

section \<open>Envelopes and request dispatch\<close>

definition prepareResponse :: "json \<Rightarrow> json" where
  "prepareResponse requestMessage =
     (let rp = getMember requestMessage ''payload'' in
      JObject
        [(''header'', JObject [(''payloadVersion'', JInt 2), (''signatureVersion'', JInt 1)]),
         (''payload'', JObject
            ([(''action'', getMember rp ''action''),
              (''clientId'', getMember rp ''clientId''),
              (''createdAt'', JInt 0),
              (''deviceId'', getMember rp ''deviceId'')]
             @ (if containsKey rp ''instanceId''
                then [(''instanceId'', getMember rp ''instanceId'')] else [])
             @ [(''message'', JString ''OK''),
                (''replyToken'', getMember rp ''replyToken''),
                (''success'', JBool False),
                (''type'', JString ''response''),
                (''value'', JObject [])]))])"

text \<open>\<^verbatim>\<open>JsonObject o = v\<close>: the object, or a null reference when \<open>v\<close> is no object.\<close>

fun asObject :: "json \<Rightarrow> json" where
  "asObject (JObject kvs) = JObject kvs"
| "asObject _ = JNull"

text \<open>
  The locals of \<^verbatim>\<open>handleRequest\<close> that its loop over the registry changes:
  \<^verbatim>\<open>success\<close>, \<^verbatim>\<open>responseMessage\<close> and the member \<^verbatim>\<open>responseMessageStr\<close>; and the
  registry positions of the devices whose handler the loop has called, with what each
  of these calls returned, in the order of the calls.
\<close>

record dispatch =
  d_success :: bool
  d_responseMessage :: json
  d_responseMessageStr :: string
  d_invoked :: "nat list"
  d_returned :: "bool list"

text \<open>The body of the loop's \<^verbatim>\<open>if\<close>, for the device at registry position \<open>i\<close>.\<close>

definition dispatch_device ::
  "string \<Rightarrow> string \<Rightarrow> json \<Rightarrow> device \<Rightarrow> nat \<Rightarrow> dispatch \<Rightarrow> dispatch" where
  "dispatch_device action inst req_value dev i st =
     (let request = \<lparr>req_action = action, req_instance = inst, request_value = req_value,
                      response_value =
                        asObject (getMember (getMember (d_responseMessage st) ''payload'') ''value'')\<rparr>;
          r = dev_handleRequest dev request;
          msgStr = (case hr_setResponseMessage r of
                      Some m \<Rightarrow> m | None \<Rightarrow> d_responseMessageStr st);
          resp1 = setMember2 (d_responseMessage st) ''payload'' ''value'' (hr_response_value r);
          success = hr_success r;
          resp2 = setMember2 resp1 ''payload'' ''success'' (JBool success);
          st1 = st\<lparr>d_success := success, d_responseMessage := resp2,
                    d_responseMessageStr := msgStr, d_invoked := d_invoked st @ [i],
                    d_returned := d_returned st @ [success]\<rparr>
      in if \<not> success then
           (if length msgStr > 0 then
              st1\<lparr>d_responseMessage := setMember2 resp2 ''payload'' ''message'' (JString msgStr),
                   d_responseMessageStr := []\<rparr>
            else
              st1\<lparr>d_responseMessage := setMember2 resp2 ''payload'' ''message''
                     (JString ''Device returned an error while processing the request!'')\<rparr>)
         else st1)"

text \<open>\<^verbatim>\<open>for (auto& device : devices)\<close>, from registry position \<open>i\<close> on.\<close>

fun devices_loop ::
  "string option \<Rightarrow> string \<Rightarrow> string \<Rightarrow> json \<Rightarrow> device list \<Rightarrow> nat \<Rightarrow> dispatch \<Rightarrow> dispatch" where
  "devices_loop deviceId action inst req_value [] i st = st"
| "devices_loop deviceId action inst req_value (dev # ds) i st =
     devices_loop deviceId action inst req_value ds (Suc i)
       (if Some (getDeviceId dev) = deviceId \<and> d_success st = False
        then dispatch_device action inst req_value dev i st
        else st)"

text \<open>The state of the loop when \<^verbatim>\<open>handleRequest\<close> enters it, and when it leaves it.\<close>

definition dispatch_init :: "engine \<Rightarrow> json \<Rightarrow> dispatch" where
  "dispatch_init s requestMessage =
     \<lparr>d_success = False, d_responseMessage = prepareResponse requestMessage,
      d_responseMessageStr = responseMessageStr s, d_invoked = [], d_returned = []\<rparr>"

definition run_dispatch :: "engine \<Rightarrow> json \<Rightarrow> dispatch" where
  "run_dispatch s requestMessage =
     (let rp = getMember requestMessage ''payload'' in
      devices_loop (asCStr (getMember rp ''deviceId''))
        (asString_or (getMember rp ''action'') [])
        (asString_or (getMember rp ''instanceId'') [])
        (asObject (getMember rp ''value''))
        (devices s) 0 (dispatch_init s requestMessage))"

definition handleRequest :: "env \<Rightarrow> engine \<Rightarrow> json \<Rightarrow> interface_t \<Rightarrow> engine" where
  "handleRequest e s requestMessage Interface =
     (let d = run_dispatch s requestMessage;
          responseString = serializeJson e (d_responseMessage d)
      in s\<lparr>sendQueue := sendQueue s @ [\<lparr>getInterface = Interface, getMessage = responseString\<rparr>],
           responseMessageStr := d_responseMessageStr d,
           handler_calls := handler_calls s @ d_invoked d\<rparr>)"

text \<open>\<^verbatim>\<open>handleResponse\<close> only prints the response when debugging is on.\<close>

definition handleResponse :: "engine \<Rightarrow> json \<Rightarrow> engine" where
  "handleResponse s responseMessage = s"

section \<open>The receive processor\<close>

text \<open>
  \<^verbatim>\<open>strncmp(a, b, n) == 0\<close> on C strings: the first \<open>n\<close> characters agree, or both
  strings end, at the same place, before that.
\<close>

fun strncmp_eq :: "string \<Rightarrow> string \<Rightarrow> nat \<Rightarrow> bool" where
  "strncmp_eq a b 0 = True"
| "strncmp_eq [] [] (Suc n) = True"
| "strncmp_eq [] (y # ys) (Suc n) = False"
| "strncmp_eq (x # xs) [] (Suc n) = False"
| "strncmp_eq (x # xs) (y # ys) (Suc n) = (x = y \<and> strncmp_eq xs ys n)"

definition strlen :: "string \<Rightarrow> nat" where
  "strlen a = length a"

definition timestamp_prefix :: string where
  \<open>timestamp_prefix = ''{"timestamp":''\<close>

text \<open>
  How \<^verbatim>\<open>handleReceiveQueue\<close> settles \<^verbatim>\<open>sigMatch\<close> for a raw frame: without looking at
  a signature (\<open>Bypassed\<close>), or by comparing the frame's \<^verbatim>\<open>signature.HMAC\<close> with the
  signature calculated over the extracted payload (\<open>Checked\<close>, with the outcome).
\<close>

datatype gate = Bypassed | Checked bool

definition signatureGate :: "env \<Rightarrow> string \<Rightarrow> string \<Rightarrow> json \<Rightarrow> gate" where
  "signatureGate e key raw jsonMessage =
     (if strncmp_eq raw timestamp_prefix 13 \<and> strlen raw \<le> 26 then Bypassed
      else
        (let signature = asString_or (getMember (getMember jsonMessage ''signature'') ''HMAC'') [];
             payload = extractPayload e raw;
             calculatedSignature = calculateSignature e key payload
         in Checked (calculatedSignature = signature)))"

fun sigMatch :: "gate \<Rightarrow> bool" where
  "sigMatch Bypassed = True"
| "sigMatch (Checked b) = b"

text \<open>The body of the \<^verbatim>\<open>while\<close> loop of \<^verbatim>\<open>handleReceiveQueue\<close>, after the pop.\<close>

definition receive_frame :: "env \<Rightarrow> engine \<Rightarrow> SinricProMessage \<Rightarrow> engine" where
  "receive_frame e s rawMessage =
     (let jsonMessage = deserializeJson e (getMessage rawMessage);
          g = signatureGate e (signingKey s) (getMessage rawMessage) jsonMessage;
          messageType = getMember (getMember jsonMessage ''payload'') ''type''
      in if sigMatch g then
           (let s1 = extractTimestamp e s jsonMessage;
                s2 = (if stringIs messageType ''response''
                      then handleResponse s1 jsonMessage else s1)
            in if stringIs messageType ''request''
               then handleRequest e s2 jsonMessage (getInterface rawMessage) else s2)
         else s)"

function receiveQueue_loop :: "env \<Rightarrow> engine \<Rightarrow> engine" where
  "receiveQueue_loop e s =
     (case receiveQueue s of
        [] \<Rightarrow> s
      | rawMessage # rest \<Rightarrow>
          receiveQueue_loop e (receive_frame e (s\<lparr>receiveQueue := rest\<rparr>) rawMessage))"
  by pat_completeness auto
termination
  by (relation "measure (\<lambda>(e, s). length (receiveQueue s))")
     (auto simp: receive_frame_def handleRequest_def handleResponse_def extractTimestamp_def
        millis_read_def Let_def)

declare receiveQueue_loop.simps [simp del]

definition handleReceiveQueue :: "env \<Rightarrow> engine \<Rightarrow> engine" where
  "handleReceiveQueue e s = (if length (receiveQueue s) = 0 then s else receiveQueue_loop e s)"

section \<open>The send processor\<close>

text \<open>The body of the \<^verbatim>\<open>while\<close> loop of \<^verbatim>\<open>handleSendQueue\<close>, after the pop.\<close>

definition send_frame :: "env \<Rightarrow> engine \<Rightarrow> SinricProMessage \<Rightarrow> engine" where
  "send_frame e s rawMessage =
     (let jsonMessage = deserializeJson e (getMessage rawMessage) in
      case getTimestamp e s of (ts, s1) \<Rightarrow>
        (let stamped = setMember2 jsonMessage ''payload'' ''createdAt'' (JInt (uint ts));
             signed = signMessage e (signingKey s1) stamped;
             messageStr = serializeJson e signed
         in case getInterface rawMessage of
              IF_WEBSOCKET \<Rightarrow> websocket_sendMessage messageStr s1
            | IF_UDP \<Rightarrow> udp_sendMessage messageStr s1
            | IF_UNKNOWN \<Rightarrow> s1))"

function sendQueue_loop :: "env \<Rightarrow> engine \<Rightarrow> engine" where
  "sendQueue_loop e s =
     (case sendQueue s of
        [] \<Rightarrow> s
      | rawMessage # rest \<Rightarrow>
          sendQueue_loop e (send_frame e (s\<lparr>sendQueue := rest\<rparr>) rawMessage))"
  by pat_completeness auto
termination
  by (relation "measure (\<lambda>(e, s). length (sendQueue s))")
     (auto simp: send_frame_def getTimestamp_def millis_read_def websocket_sendMessage_def
        udp_sendMessage_def transport_call_def Let_def split: interface_t.splits)

declare sendQueue_loop.simps [simp del]

definition handleSendQueue :: "env \<Rightarrow> engine \<Rightarrow> engine" where
  "handleSendQueue e s =
     (if \<not> isConnected s then s
      else if baseTimestamp s = 0 then s
      else sendQueue_loop e s)"

definition sendMessage :: "env \<Rightarrow> engine \<Rightarrow> json \<Rightarrow> engine" where
  "sendMessage e s jsonMessage =
     (if \<not> isConnected s then s
      else s\<lparr>sendQueue := sendQueue s @
             [\<lparr>getInterface = IF_WEBSOCKET, getMessage = serializeJson e jsonMessage\<rparr>]\<rparr>)"

section \<open>The connection manager\<close>

text \<open>The loop of \<^verbatim>\<open>connect()\<close> over the registry, on its locals \<^verbatim>\<open>deviceList\<close> and \<^verbatim>\<open>i\<close>.\<close>

fun deviceList_loop :: "env \<Rightarrow> device list \<Rightarrow> string \<times> nat \<Rightarrow> string \<times> nat" where
  "deviceList_loop e [] acc = acc"
| "deviceList_loop e (dev # ds) (deviceList, i) =
     deviceList_loop e ds
       (if DeviceId_isValid e (getDeviceId dev)
        then ((if i > 0 then deviceList @ '';'' else deviceList) @ getDeviceId dev, Suc i)
        else (deviceList, i))"

definition connect :: "env \<Rightarrow> engine \<Rightarrow> engine" where
  "connect e s =
     (case deviceList_loop e (devices s) ([], 0) of
        (deviceList, i) \<Rightarrow>
          if i = 0 then s\<lparr>begin_flag := False\<rparr>
          else websocket_begin (serverURL s) (socketAuthToken s) deviceList s)"

definition stop :: "engine \<Rightarrow> engine" where
  "stop s = websocket_stop (s\<lparr>begin_flag := False\<rparr>)"

definition reconnect :: "env \<Rightarrow> engine \<Rightarrow> engine" where
  "reconnect e s = connect e (stop s)"

text \<open>\<^verbatim>\<open>getDevice\<close>: the first record with the id, or the null pointer.\<close>

definition getDevice :: "engine \<Rightarrow> string \<Rightarrow> device option" where
  "getDevice s deviceId = find (\<lambda>dev. deviceId = getDeviceId dev) (devices s)"

text \<open>\<^verbatim>\<open>begin(socketAuthToken, signingKey, serverURL)\<close>\<close>

definition begin_engine :: "env \<Rightarrow> engine \<Rightarrow> string \<Rightarrow> string \<Rightarrow> string \<Rightarrow> engine" where
  "begin_engine e s appKey appSecret url =
     (let success = (AppKey_isValid e appKey \<and> AppSecret_isValid e appSecret) in
      if \<not> success then s\<lparr>begin_flag := False\<rparr>
      else udp_begin (s\<lparr>socketAuthToken := appKey, signingKey := appSecret, serverURL := url,
                         begin_flag := True\<rparr>))"

text \<open>\<^verbatim>\<open>add<DeviceType>(deviceId)\<close>, for the device object it creates.\<close>

definition add :: "env \<Rightarrow> engine \<Rightarrow> device \<Rightarrow> engine" where
  "add e s newDevice =
     (let s1 = (if DeviceId_isValid e (getDeviceId newDevice)
                then (if AppKey_isValid e (socketAuthToken s) \<and> AppSecret_isValid e (signingKey s)
                      then s\<lparr>begin_flag := True\<rparr> else s)
                else s)
      in s1\<lparr>devices := devices s1 @ [newDevice]\<rparr>)"

text \<open>
  \<^verbatim>\<open>getDeviceInstance\<close>, behind \<^verbatim>\<open>operator[]\<close>; \<open>newDevice\<close> is the device object it
  creates when the id is unknown.
\<close>

definition getDeviceInstance :: "env \<Rightarrow> engine \<Rightarrow> device \<Rightarrow> device \<times> engine" where
  "getDeviceInstance e s newDevice =
     (case getDevice s (getDeviceId newDevice) of
        Some tmp_device \<Rightarrow> (tmp_device, s)
      | None \<Rightarrow>
          (let s1 = add e s newDevice
           in (newDevice, if isConnected s1 then reconnect e s1 else s1)))"

text \<open>
  \<^verbatim>\<open>handle()\<close>, the engine's poll call; \<open>inp\<close> is what the two transports receive while
  they are polled.
\<close>

definition handle :: "env \<Rightarrow> poll_input \<Rightarrow> engine \<Rightarrow> engine" where
  "handle e inp s =
     (if \<not> begin_flag s then
        (if \<not> begin_error s then s\<lparr>begin_error := True\<rparr> else s)
      else
        (let s1 = (if \<not> isConnected s then connect e s else s);
             s2 = websocket_handle inp s1;
             s3 = udp_handle inp s2;
             s4 = handleReceiveQueue e s3
         in handleSendQueue e s4))"

section \<open>The range controller capability\<close>

text \<open>
  \<^verbatim>\<open>RangeController.h\<close>. A callback is a function pointer that gets the device id (and the
  instance name) and a value by reference, and returns the success flag; here it maps
  the value it is given to the flag and the value it leaves behind. The plain callbacks
  are pointers that may be null. \<^verbatim>\<open>float\<close> values are kept abstract (the type \<open>'f\<close>),
  with the two conversions between them and JSON values as parameters.
\<close>

datatype 'f GenericRangeValueCallback =
    type_unknown
  | type_int "string \<Rightarrow> string \<Rightarrow> int \<Rightarrow> bool \<times> int"
  | type_float "string \<Rightarrow> string \<Rightarrow> 'f \<Rightarrow> bool \<times> 'f"

record 'f float_ops =
  float_of_json :: "json \<Rightarrow> 'f"
  json_of_float :: "'f \<Rightarrow> json"

record 'f RangeController =
  setRangeValueCallback :: "(string \<Rightarrow> int \<Rightarrow> bool \<times> int) option"
  genericSetRangeValueCallback :: "string \<rightharpoonup> 'f GenericRangeValueCallback"
  adjustRangeValueCallback :: "(string \<Rightarrow> int \<Rightarrow> bool \<times> int) option"
  genericAdjustRangeValueCallback :: "string \<rightharpoonup> 'f GenericRangeValueCallback"

text \<open>The callbacks a call of \<^verbatim>\<open>handleRangeController\<close> invokes, in order.\<close>

datatype callback_call =
    Called_setRangeValueCallback
  | Called_adjustRangeValueCallback
  | Called_genericSetRangeValueCallback string
  | Called_genericAdjustRangeValueCallback string

text \<open>
  What a call of \<^verbatim>\<open>handleRangeController\<close> leaves: its return value, the request's
  \<open>response_value\<close>, the controller (\<^verbatim>\<open>operator[]\<close> of a \<^verbatim>\<open>std::map\<close> inserts a
  default entry for a missing key) and the callbacks it invoked.
\<close>

record 'f rc_result =
  rc_return :: bool
  rc_response_value :: json
  rc_controller :: "'f RangeController"
  rc_called :: "callback_call list"

text \<open>\<^verbatim>\<open>int x = v\<close>: the integer when it fits an \<^verbatim>\<open>int\<close>, and 0 otherwise.\<close>

fun asInt :: "json \<Rightarrow> int" where
  "asInt (JInt i) = (if - (2 ^ 31) \<le> i \<and> i < 2 ^ 31 then i else 0)"
| "asInt _ = 0"

text \<open>
  The part of either branch that calls the generic callback \<open>cb\<close> on the member \<open>key\<close> of
  the request value. With a callback of unknown type neither inner \<^verbatim>\<open>if\<close> is taken,
  and control reaches the final \<^verbatim>\<open>return false\<close>.
\<close>

definition call_generic ::
  "'f float_ops \<Rightarrow> string \<Rightarrow> SinricProRequest \<Rightarrow> string \<Rightarrow> callback_call \<Rightarrow>
     'f RangeController \<Rightarrow> 'f GenericRangeValueCallback \<Rightarrow> 'f rc_result" where
  "call_generic ops deviceId request key c rc cb =
     (case cb of
        type_float f \<Rightarrow>
          (case f deviceId (req_instance request)
                  (float_of_json ops (getMember (request_value request) key)) of
             (success, v) \<Rightarrow>
               \<lparr>rc_return = success,
                rc_response_value =
                  setMember (response_value request) ''rangeValue'' (json_of_float ops v),
                rc_controller = rc, rc_called = [c]\<rparr>)
      | type_int f \<Rightarrow>
          (case f deviceId (req_instance request)
                  (asInt (getMember (request_value request) key)) of
             (success, v) \<Rightarrow>
               \<lparr>rc_return = success,
                rc_response_value = setMember (response_value request) ''rangeValue'' (JInt v),
                rc_controller = rc, rc_called = [c]\<rparr>)
      | type_unknown \<Rightarrow>
          \<lparr>rc_return = False, rc_response_value = response_value request,
           rc_controller = rc, rc_called = []\<rparr>)"

text \<open>The branch without an instance name; both actions use \<^verbatim>\<open>setRangeValueCallback\<close>.\<close>

definition call_plain ::
  "string \<Rightarrow> SinricProRequest \<Rightarrow> string \<Rightarrow> 'f RangeController \<Rightarrow> 'f rc_result" where
  "call_plain deviceId request key rc =
     (let rangeValue = asInt (getMember (request_value request) key) in
      case setRangeValueCallback rc of
        Some cb \<Rightarrow>
          (case cb deviceId rangeValue of
             (success, v) \<Rightarrow>
               \<lparr>rc_return = success,
                rc_response_value = setMember (response_value request) ''rangeValue'' (JInt v),
                rc_controller = rc, rc_called = [Called_setRangeValueCallback]\<rparr>)
      | None \<Rightarrow>
          \<lparr>rc_return = False,
           rc_response_value = setMember (response_value request) ''rangeValue'' (JInt rangeValue),
           rc_controller = rc, rc_called = []\<rparr>)"

definition handleRangeController ::
  "'f float_ops \<Rightarrow> string \<Rightarrow> 'f RangeController \<Rightarrow> SinricProRequest \<Rightarrow> 'f rc_result" where
  "handleRangeController ops deviceId rc request =
     (let inst = req_instance request;
          return_false = \<lparr>rc_return = False, rc_response_value = response_value request,
                          rc_controller = rc, rc_called = []\<rparr>
      in if req_action request = ''setRangeValue'' then
           (if inst = [] then call_plain deviceId request ''rangeValue'' rc
            else
              (case genericSetRangeValueCallback rc inst of
                 None \<Rightarrow> return_false
               | Some cb \<Rightarrow>
                   call_generic ops deviceId request ''rangeValue''
                     (Called_genericSetRangeValueCallback inst) rc cb))
         else if req_action request = ''adjustRangeValue'' then
           (if inst = [] then call_plain deviceId request ''rangeValueDelta'' rc
            else
              (case genericSetRangeValueCallback rc inst of
                 None \<Rightarrow> return_false
               | Some _ \<Rightarrow>
                   (case genericAdjustRangeValueCallback rc inst of
                      Some cb \<Rightarrow>
                        call_generic ops deviceId request ''rangeValueDelta''
                          (Called_genericAdjustRangeValueCallback inst) rc cb
                    | None \<Rightarrow>
                        call_generic ops deviceId request ''rangeValueDelta''
                          (Called_genericAdjustRangeValueCallback inst)
                          (rc\<lparr>genericAdjustRangeValueCallback :=
                                (genericAdjustRangeValueCallback rc)(inst \<mapsto> type_unknown)\<rparr>)
                          type_unknown)))
         else return_false)"

section \<open>What the send processor puts on the wire\<close>

text \<open>
  The text sent for a queued frame \<open>raw\<close> when \<^verbatim>\<open>getTimestamp()\<close> returns \<open>ts\<close>: the frame
  parsed, stamped, signed and printed again.
\<close>

definition wire_text :: "env \<Rightarrow> string \<Rightarrow> ulong \<Rightarrow> string \<Rightarrow> string" where
  "wire_text e key ts raw =
     serializeJson e (signMessage e key
       (setMember2 (deserializeJson e raw) ''payload'' ''createdAt'' (JInt (uint ts))))"

text \<open>
  The transport calls that sending one frame makes, by its origin tag, and the calls for
  the frame \<open>m\<close> that gets the \<open>k\<close>-th reading of the clock.
\<close>

fun route :: "interface_t \<Rightarrow> string \<Rightarrow> transport_call list" where
  "route IF_WEBSOCKET t = [WsSend t]"
| "route IF_UDP t = [UdpSend t]"
| "route IF_UNKNOWN t = []"

definition frame_sends :: "env \<Rightarrow> engine \<Rightarrow> nat \<times> SinricProMessage \<Rightarrow> transport_call list" where
  "frame_sends e s = (\<lambda>(k, m).
     route (getInterface m)
       (wire_text e (signingKey s) (baseTimestamp s + millis e k div 1000) (getMessage m)))"

text \<open>The one call for a frame whose tag names a transport.\<close>

definition frame_send :: "env \<Rightarrow> engine \<Rightarrow> nat \<times> SinricProMessage \<Rightarrow> transport_call" where
  "frame_send e s = (\<lambda>(k, m).
     let t = wire_text e (signingKey s) (baseTimestamp s + millis e k div 1000) (getMessage m)
     in case getInterface m of IF_UDP \<Rightarrow> UdpSend t | _ \<Rightarrow> WsSend t)"

text \<open>Every frame of a queue is tagged with one of the two transports.\<close>

definition transport_tagged :: "SinricProMessage list \<Rightarrow> bool" where
  "transport_tagged q = list_all (\<lambda>m. getInterface m \<noteq> IF_UNKNOWN) q"

section \<open>Which registry records a request names\<close>

text \<open>
  The registry positions, counted from \<open>i\<close> for the head of the list, of the records whose
  device id equals the id the request names, in registry order.
\<close>

fun matching_positions :: "string option \<Rightarrow> device list \<Rightarrow> nat \<Rightarrow> nat list" where
  "matching_positions deviceId [] i = []"
| "matching_positions deviceId (dev # ds) i =
     (if Some (getDeviceId dev) = deviceId then [i] else [])
     @ matching_positions deviceId ds (Suc i)"

text \<open>The device id a request names, as \<^verbatim>\<open>handleRequest\<close> reads it.\<close>

definition request_deviceId :: "json \<Rightarrow> string option" where
  "request_deviceId requestMessage =
     asCStr (getMember (getMember requestMessage ''payload'') ''deviceId'')"

text \<open>
  The request that \<^verbatim>\<open>handleRequest\<close> hands to the first handler it invokes: the response
  value is still the empty object that \<^verbatim>\<open>prepareResponse\<close> created.
\<close>

definition first_request :: "json \<Rightarrow> SinricProRequest" where
  "first_request requestMessage =
     (let rp = getMember requestMessage ''payload'' in
      \<lparr>req_action = asString_or (getMember rp ''action'') [],
       req_instance = asString_or (getMember rp ''instanceId'') [],
       request_value = asObject (getMember rp ''value''),
       response_value = JObject []\<rparr>)"

text \<open>
  The calls recorded in a state of the dispatch loop are consistent: one returned flag per
  invoked handler, every handler invoked before the last one returned failure, and
  \<^verbatim>\<open>success\<close> is what the last invoked handler returned (false when none was invoked).
\<close>

definition dispatch_trace_ok :: "dispatch \<Rightarrow> bool" where
  "dispatch_trace_ok st =
     (length (d_returned st) = length (d_invoked st) \<and>
      list_all (\<lambda>ok. \<not> ok) (butlast (d_returned st)) \<and>
      d_success st = (d_returned st \<noteq> [] \<and> last (d_returned st)))"

section \<open>The control frame shape of the interface description\<close>

text \<open>
  The shape of the unsigned control frame as the interface description words it, for
  comparison with the test \<^verbatim>\<open>handleReceiveQueue\<close> makes: the literal prefix
  \<^verbatim>\<open>{"timestamp":\<close>, followed by digits (and the closing brace), at most 26 bytes in all.
\<close>

definition is_digit :: "char \<Rightarrow> bool" where
  "is_digit c = (c \<in> set ''0123456789'')"

definition control_frame_shape :: "string \<Rightarrow> bool" where
  "control_frame_shape raw =
     (take 13 raw = timestamp_prefix \<and>
      takeWhile is_digit (drop 13 raw) \<noteq> [] \<and>
      dropWhile is_digit (drop 13 raw) = ''}'' \<and>
      length raw \<le> 26)"

section \<open>Example inputs\<close>

text \<open>
  Concrete frames, collaborators and engine states on which the results below are
  evaluated. The example collaborators parse by table: they know the frames defined here.
\<close>

definition timestamp_frame :: string where
  \<open>timestamp_frame = ''{"timestamp":1690000000}''\<close>

definition quoted_frame :: string where
  \<open>quoted_frame = ''{"timestamp":"x"}''\<close>

definition request_frame :: string where
  \<open>request_frame = ''{"payload":{"deviceId":"A","type":"request"},"signature":{"HMAC":"kP"}}''\<close>

definition forged_frame :: string where
  \<open>forged_frame = ''{"payload":{"deviceId":"A","type":"request"},"signature":{"HMAC":"zz"}}''\<close>

definition event_frame :: string where
  \<open>event_frame = ''{"payload":{"deviceId":"A","type":"event"}}''\<close>

definition request_doc :: "string \<Rightarrow> json" where
  "request_doc hmac =
     JObject
       [(''payload'', JObject
           [(''action'', JString ''setPowerState''),
            (''createdAt'', JInt 1690000100),
            (''deviceId'', JString ''A''),
            (''replyToken'', JString ''r1''),
            (''type'', JString ''request''),
            (''value'', JObject [(''state'', JString ''On'')])]),
        (''signature'', JObject [(''HMAC'', JString hmac)])]"

text \<open>An event envelope, as a device would submit it for sending.\<close>

definition event_doc :: json where
  "event_doc =
     JObject
       [(''payload'', JObject
           [(''action'', JString ''setPowerState''),
            (''createdAt'', JInt 0),
            (''deviceId'', JString ''A''),
            (''replyToken'', JString ''t1''),
            (''type'', JString ''event''),
            (''value'', JObject [(''state'', JString ''On'')])])]"

definition example_env :: env where
  "example_env =
     \<lparr>deserializeJson =
        (\<lambda>raw. if raw = timestamp_frame then JObject [(''timestamp'', JInt 1690000000)]
              else if raw = quoted_frame then JObject [(''timestamp'', JString ''x'')]
              else if raw = request_frame then request_doc ''kP''
              else if raw = forged_frame then request_doc ''zz''
              else if raw = event_frame then event_doc
              else JNull),
      serializeJson = (\<lambda>j. asString_or (getMember (getMember j ''payload'') ''type'') ''?''),
      extractPayload = (\<lambda>raw. if raw = request_frame \<or> raw = forged_frame then ''P'' else []),
      calculateSignature = (\<lambda>key payload. key @ payload),
      signMessage = (\<lambda>key j. setMember j ''signature'' (JObject [(''HMAC'', JString key)])),
      millis = (\<lambda>k. 5000 + 1000 * of_nat k),
      DeviceId_isValid = (\<lambda>d. d \<noteq> []),
      AppKey_isValid = (\<lambda>k. k \<noteq> []),
      AppSecret_isValid = (\<lambda>k. k \<noteq> [])\<rparr>"

text \<open>An enabled engine with credentials and nothing else: no device, no frame, no session.\<close>

definition engine0 :: engine where
  "engine0 =
     \<lparr>devices = [], socketAuthToken = ''key'', signingKey = ''k'', serverURL = ''ws.sinric.pro'',
      receiveQueue = [], sendQueue = [], baseTimestamp = 0, begin_flag = True,
      responseMessageStr = [], begin_error = False, ws_isConnected = False,
      transport_calls = [], handler_calls = [], millis_calls = 0\<rparr>"

text \<open>A range controller with a generic callback for adjusting the instance \<open>speed\<close> only.\<close>

definition rc_example :: "int RangeController" where
  "rc_example =
     \<lparr>setRangeValueCallback = None,
      genericSetRangeValueCallback = Map.empty,
      adjustRangeValueCallback = None,
      genericAdjustRangeValueCallback =
        [''speed'' \<mapsto> type_int (\<lambda>deviceId inst v. (True, v + 1))]\<rparr>"

definition adjust_request :: SinricProRequest where
  "adjust_request =
     \<lparr>req_action = ''adjustRangeValue'', req_instance = ''speed'',
      request_value = JObject [(''rangeValueDelta'', JInt 5)],
      response_value = JObject []\<rparr>"

definition int_float_ops :: "int float_ops" where
  "int_float_ops = \<lparr>float_of_json = asInt, json_of_float = JInt\<rparr>"

text \<open>Parsed frames with both timestamp sources: two non-zero values, and two zeros.\<close>

definition both_timestamps_doc :: json where
  "both_timestamps_doc =
     JObject [(''timestamp'', JInt 1690000000),
              (''payload'', JObject [(''createdAt'', JInt 1690000100)])]"

definition zero_timestamps_doc :: json where
  "zero_timestamps_doc =
     JObject [(''timestamp'', JInt 0), (''payload'', JObject [(''createdAt'', JInt 0)])]"

text \<open>Two request handlers, two devices and what one poll of the transports brings in.\<close>

definition ok_handler :: "SinricProRequest \<Rightarrow> handler_result" where
  "ok_handler r =
     \<lparr>hr_success = True,
      hr_response_value = setMember (response_value r) ''state'' (getMember (request_value r) ''state''),
      hr_setResponseMessage = None\<rparr>"

definition failing_handler :: "SinricProRequest \<Rightarrow> handler_result" where
  "failing_handler r =
     \<lparr>hr_success = False, hr_response_value = response_value r, hr_setResponseMessage = None\<rparr>"

definition poll_example :: poll_input where
  "poll_example = \<lparr>ws_frames = [timestamp_frame], ws_connected_now = True, udp_frames = []\<rparr>"

text \<open>An engine whose only device has an id that is not valid.\<close>

definition unusable_engine :: engine where
  "unusable_engine = engine0\<lparr>devices := [\<lparr>getDeviceId = [], dev_handleRequest = ok_handler\<rparr>]\<rparr>"

text \<open>
  An engine in a running session: one valid device, connected, synchronised, with one
  frame waiting in the outbound queue.
\<close>

definition running_engine :: engine where
  "running_engine =
     engine0\<lparr>devices := [\<lparr>getDeviceId = ''A'', dev_handleRequest = ok_handler\<rparr>],
             ws_isConnected := True, baseTimestamp := 1690000000,
             sendQueue := [\<lparr>getInterface = IF_WEBSOCKET, getMessage = request_frame\<rparr>]\<rparr>"

text \<open>An engine that holds two outbound frames while it is offline and unsynchronised.\<close>

definition held_engine :: engine where
  "held_engine =
     engine0\<lparr>sendQueue := [\<lparr>getInterface = IF_WEBSOCKET, getMessage = request_frame\<rparr>,
                           \<lparr>getInterface = IF_UDP, getMessage = event_frame\<rparr>]\<rparr>"

text \<open>
  Two registries that hold the id \<open>A\<close> twice: one whose first record fails the request,
  one whose first record handles it.
\<close>

definition duplicate_engine :: engine where
  "duplicate_engine =
     engine0\<lparr>devices := [\<lparr>getDeviceId = ''A'', dev_handleRequest = failing_handler\<rparr>,
                         \<lparr>getDeviceId = ''A'', dev_handleRequest = ok_handler\<rparr>]\<rparr>"

definition duplicate_ok_engine :: engine where
  "duplicate_ok_engine =
     engine0\<lparr>devices := [\<lparr>getDeviceId = ''A'', dev_handleRequest = ok_handler\<rparr>,
                         \<lparr>getDeviceId = ''A'', dev_handleRequest = failing_handler\<rparr>]\<rparr>"

text \<open>A registry that holds the id \<open>A\<close> three times; only the first record fails the request.\<close>

definition triple_engine :: engine where
  "triple_engine =
     engine0\<lparr>devices := [\<lparr>getDeviceId = ''A'', dev_handleRequest = failing_handler\<rparr>,
                         \<lparr>getDeviceId = ''A'', dev_handleRequest = ok_handler\<rparr>,
                         \<lparr>getDeviceId = ''A'', dev_handleRequest = ok_handler\<rparr>]\<rparr>"

text \<open>
  The example collaborators with a clock that wraps around: the reading is 4294967000 ms
  at the first call of \<^verbatim>\<open>millis()\<close>, 296 ms before the 32-bit counter returns to zero,
  and 1000 ms at every later call, 1296 ms after the first.
\<close>

definition rollover_env :: env where
  "rollover_env = example_env\<lparr>millis := (\<lambda>k. if k = 0 then 4294967000 else 1000)\<rparr>"

section \<open>The signature gate\<close>

lemma strncmp_eq_take: "strncmp_eq a b n = (take n a = take n b)"
  by (induction a b n rule: strncmp_eq.induct) auto

lemma bypass_iff:
  "(signatureGate e key raw doc = Bypassed) =
     (take 13 raw = timestamp_prefix \<and> length raw \<le> 26)"
  by (simp add: signatureGate_def Let_def strncmp_eq_take strlen_def timestamp_prefix_def)

lemma gate_checked:
  "signatureGate e key raw doc \<noteq> Bypassed \<Longrightarrow>
     signatureGate e key raw doc =
       Checked (calculateSignature e key (extractPayload e raw) =
                asString_or (getMember (getMember doc ''signature'') ''HMAC'') [])"
  by (simp add: signatureGate_def Let_def split: if_splits)

lemma receive_frame_discard:
  "\<not> sigMatch (signatureGate e (signingKey s) (getMessage m) (deserializeJson e (getMessage m)))
     \<Longrightarrow> receive_frame e s m = s"
  by (simp add: receive_frame_def Let_def)

text \<open>
  Claim C1, as stated, fails: the frame \<^verbatim>\<open>{"timestamp":"x"}\<close> bypasses signature
  verification although no digit follows its prefix, so it does not have the shape the
  claim requires of a frame that bypasses.
\<close>

theorem quoted_frame_bypasses_without_digits:
  "signatureGate example_env ''k'' quoted_frame (deserializeJson example_env quoted_frame)
     = Bypassed
   \<and> \<not> control_frame_shape quoted_frame"
  by (simp add: bypass_iff quoted_frame_def timestamp_prefix_def control_frame_shape_def
      is_digit_def)

text \<open>
  Claim C1, amended: a raw frame bypasses signature verification if and only if its first
  13 bytes are the literal prefix \<^verbatim>\<open>{"timestamp":\<close> and it is at most 26 bytes long (what
  follows the prefix is not looked at); every other frame is processed only if the HMAC
  calculated over its payload substring equals its \<^verbatim>\<open>signature.HMAC\<close>, and a frame that
  fails this check is discarded: processing it leaves the engine as it was.
\<close>

theorem signature_gate_prefix_and_length:
  "(signatureGate e key raw doc = Bypassed \<longleftrightarrow>
      take 13 raw = timestamp_prefix \<and> length raw \<le> 26) \<and>
   (signatureGate e key raw doc \<noteq> Bypassed \<longrightarrow>
      signatureGate e key raw doc =
        Checked (calculateSignature e key (extractPayload e raw) =
                 asString_or (getMember (getMember doc ''signature'') ''HMAC'') [])) \<and>
   (\<not> sigMatch (signatureGate e (signingKey s) (getMessage m) (deserializeJson e (getMessage m)))
      \<longrightarrow> receive_frame e s m = s)"
  using bypass_iff [of e key raw doc] gate_checked [of e key raw doc]
    receive_frame_discard [of e s m]
  by blast

theorem signature_gate_prefix_and_length_witness:
  "signatureGate example_env ''k'' timestamp_frame (deserializeJson example_env timestamp_frame)
     = Bypassed \<and>
   signatureGate example_env ''k'' forged_frame (deserializeJson example_env forged_frame)
     = Checked False \<and>
   receive_frame example_env engine0 \<lparr>getInterface = IF_WEBSOCKET, getMessage = forged_frame\<rparr>
     = engine0"
proof -
  let ?m = "\<lparr>getInterface = IF_WEBSOCKET, getMessage = forged_frame\<rparr>"
  have bypass: "signatureGate example_env ''k'' timestamp_frame
      (deserializeJson example_env timestamp_frame) = Bypassed"
    using signature_gate_prefix_and_length
      [of example_env "''k''" timestamp_frame "deserializeJson example_env timestamp_frame"]
    by (simp add: timestamp_frame_def timestamp_prefix_def)
  have not_bypass: "signatureGate example_env ''k'' forged_frame
      (deserializeJson example_env forged_frame) \<noteq> Bypassed"
    using signature_gate_prefix_and_length
      [of example_env "''k''" forged_frame "deserializeJson example_env forged_frame"]
    by (simp add: forged_frame_def timestamp_prefix_def)
  have doc: "deserializeJson example_env forged_frame = request_doc ''zz''"
    by (simp add: example_env_def forged_frame_def timestamp_frame_def quoted_frame_def
        request_frame_def)
  have checked: "signatureGate example_env ''k'' forged_frame
      (deserializeJson example_env forged_frame) = Checked False"
    using signature_gate_prefix_and_length
      [of example_env "''k''" forged_frame "deserializeJson example_env forged_frame"]
      not_bypass
    by (simp add: doc) (simp add: example_env_def request_doc_def)
  have key: "signingKey engine0 = ''k''"
    by (simp add: engine0_def)
  have "receive_frame example_env engine0 ?m = engine0"
    using signature_gate_prefix_and_length
      [of example_env "''k''" forged_frame "deserializeJson example_env forged_frame" engine0 ?m]
      checked key
    by simp
  with bypass checked show ?thesis by simp
qed

section \<open>The send processor holds, then flushes in order\<close>

lemma send_frame_eq:
  "send_frame e s m =
     s\<lparr>millis_calls := Suc (millis_calls s),
       transport_calls := transport_calls s @ frame_sends e s (millis_calls s, m)\<rparr>"
  by (cases "getInterface m")
     (simp_all add: send_frame_def frame_sends_def wire_text_def getTimestamp_def millis_read_def
       websocket_sendMessage_def udp_sendMessage_def transport_call_def Let_def)

lemma frame_sends_cong:
  "signingKey s' = signingKey s \<Longrightarrow> baseTimestamp s' = baseTimestamp s \<Longrightarrow>
   frame_sends e s' = frame_sends e s"
  by (simp add: frame_sends_def)

lemma sendQueue_loop_eq:
  "sendQueue s = q \<Longrightarrow>
   sendQueue_loop e s =
     s\<lparr>sendQueue := [], millis_calls := millis_calls s + length q,
       transport_calls := transport_calls s @
         concat (map (frame_sends e s) (enumerate (millis_calls s) q))\<rparr>"
proof (induction q arbitrary: s)
  case Nil
  then show ?case by (subst sendQueue_loop.simps) simp
next
  case (Cons m q)
  let ?s1 = "send_frame e (s\<lparr>sendQueue := q\<rparr>) m"
  have q1: "sendQueue ?s1 = q"
    by (simp add: send_frame_eq)
  have fs: "frame_sends e ?s1 = frame_sends e s"
    "frame_sends e (s\<lparr>sendQueue := q\<rparr>) = frame_sends e s"
    by (rule frame_sends_cong; simp add: send_frame_eq)+
  have "sendQueue_loop e s = sendQueue_loop e ?s1"
    using Cons.prems by (subst sendQueue_loop.simps) simp
  also have "\<dots> = ?s1\<lparr>sendQueue := [], millis_calls := millis_calls ?s1 + length q,
       transport_calls := transport_calls ?s1 @
         concat (map (frame_sends e ?s1) (enumerate (millis_calls ?s1) q))\<rparr>"
    by (rule Cons.IH [OF q1])
  also have "\<dots> = s\<lparr>sendQueue := [], millis_calls := millis_calls s + length (m # q),
       transport_calls := transport_calls s @
         concat (map (frame_sends e s) (enumerate (millis_calls s) (m # q)))\<rparr>"
    unfolding fs by (simp add: send_frame_eq fs)
  finally show ?case .
qed

lemma concat_singletons:
  "\<forall>x \<in> set xs. f x = [g x] \<Longrightarrow> concat (map f xs) = map g xs"
  by (induction xs) auto

lemma frame_sends_tagged:
  "getInterface m \<noteq> IF_UNKNOWN \<Longrightarrow> frame_sends e s (k, m) = [frame_send e s (k, m)]"
  by (cases "getInterface m") (simp_all add: frame_sends_def frame_send_def)

lemma sends_tagged:
  assumes "\<forall>m \<in> set q. getInterface m \<noteq> IF_UNKNOWN"
  shows "concat (map (frame_sends e s) (enumerate n q)) = map (frame_send e s) (enumerate n q)"
proof (rule concat_singletons, rule ballI)
  fix x assume mem: "x \<in> set (enumerate n q)"
  obtain k m where x: "x = (k, m)" by (cases x)
  from mem have "m \<in> set q"
    unfolding x by (auto simp: in_set_enumerate_eq)
  with assms have "getInterface m \<noteq> IF_UNKNOWN" by simp
  then show "frame_sends e s x = [frame_send e s x]"
    unfolding x by (rule frame_sends_tagged)
qed

lemma handleSendQueue_blocked:
  "\<not> isConnected s \<or> baseTimestamp s = 0 \<Longrightarrow> handleSendQueue e s = s"
  by (auto simp: handleSendQueue_def)

lemma handleSendQueue_open:
  "isConnected s \<Longrightarrow> baseTimestamp s \<noteq> 0 \<Longrightarrow> handleSendQueue e s = sendQueue_loop e s"
  by (simp add: handleSendQueue_def)

lemma handleSendQueue_flush:
  assumes "isConnected s" and "baseTimestamp s \<noteq> 0"
  shows "sendQueue (handleSendQueue e s) = []"
    and "transport_calls (handleSendQueue e s) =
        transport_calls s @
          concat (map (frame_sends e s) (enumerate (millis_calls s) (sendQueue s)))"
proof -
  have eq: "handleSendQueue e s =
      s\<lparr>sendQueue := [], millis_calls := millis_calls s + length (sendQueue s),
        transport_calls := transport_calls s @
          concat (map (frame_sends e s) (enumerate (millis_calls s) (sendQueue s)))\<rparr>"
    unfolding handleSendQueue_open [OF assms]
    by (rule sendQueue_loop_eq) (rule refl)
  show "sendQueue (handleSendQueue e s) = []"
    by (subst eq) simp
  show "transport_calls (handleSendQueue e s) =
        transport_calls s @
          concat (map (frame_sends e s) (enumerate (millis_calls s) (sendQueue s)))"
    by (subst eq) simp
qed

text \<open>
  Claim C2: while the transport is not connected or BaseTimestamp is zero, an invocation
  of the send processor changes nothing: it makes no transport call and removes no frame.
  Once the transport is connected and BaseTimestamp is synchronised, an invocation empties
  the outbound queue, and the transport calls it makes are the sends of the queued frames,
  frame by frame in queue order; when every queued frame is tagged with a transport (as
  the frames that \<^verbatim>\<open>sendMessage\<close> and \<^verbatim>\<open>handleRequest\<close> enqueue are), that is exactly one
  send per frame, on the frame's transport.
\<close>

theorem handleSendQueue_holds_then_flushes:
  "(\<not> isConnected s \<or> baseTimestamp s = 0 \<longrightarrow> handleSendQueue e s = s) \<and>
   (isConnected s \<and> baseTimestamp s \<noteq> 0 \<longrightarrow>
      sendQueue (handleSendQueue e s) = [] \<and>
      transport_calls (handleSendQueue e s) =
        transport_calls s @
          concat (map (frame_sends e s) (enumerate (millis_calls s) (sendQueue s))) \<and>
      ((\<forall>m \<in> set (sendQueue s). getInterface m \<noteq> IF_UNKNOWN) \<longrightarrow>
         transport_calls (handleSendQueue e s) =
           transport_calls s @
             map (frame_send e s) (enumerate (millis_calls s) (sendQueue s))))"
proof (intro conjI impI)
  assume "\<not> isConnected s \<or> baseTimestamp s = 0"
  then show "handleSendQueue e s = s" by (rule handleSendQueue_blocked)
next
  assume "isConnected s \<and> baseTimestamp s \<noteq> 0"
  then show "sendQueue (handleSendQueue e s) = []"
    by (simp add: handleSendQueue_flush(1))
next
  assume "isConnected s \<and> baseTimestamp s \<noteq> 0"
  then show "transport_calls (handleSendQueue e s) =
        transport_calls s @
          concat (map (frame_sends e s) (enumerate (millis_calls s) (sendQueue s)))"
    by (simp add: handleSendQueue_flush(2))
next
  assume c: "isConnected s \<and> baseTimestamp s \<noteq> 0"
    and t: "\<forall>m \<in> set (sendQueue s). getInterface m \<noteq> IF_UNKNOWN"
  from c have "transport_calls (handleSendQueue e s) =
        transport_calls s @
          concat (map (frame_sends e s) (enumerate (millis_calls s) (sendQueue s)))"
    by (simp add: handleSendQueue_flush(2))
  then show "transport_calls (handleSendQueue e s) =
           transport_calls s @
             map (frame_send e s) (enumerate (millis_calls s) (sendQueue s))"
    by (simp only: sends_tagged [OF t])
qed

theorem handleSendQueue_holds_then_flushes_witness:
  "handleSendQueue example_env held_engine = held_engine \<and>
   sendQueue (handleSendQueue example_env
     (held_engine\<lparr>ws_isConnected := True, baseTimestamp := 1690000000\<rparr>)) = [] \<and>
   transport_calls (handleSendQueue example_env
     (held_engine\<lparr>ws_isConnected := True, baseTimestamp := 1690000000\<rparr>))
     = [WsSend ''request'', UdpSend ''event'']"
proof -
  let ?s = "held_engine\<lparr>ws_isConnected := True, baseTimestamp := 1690000000\<rparr>"
  have held: "\<not> isConnected held_engine \<or> baseTimestamp held_engine = 0"
    by (simp add: held_engine_def engine0_def isConnected_def)
  have flowing: "isConnected ?s \<and> baseTimestamp ?s \<noteq> 0"
    by (simp add: isConnected_def)
  have q: "sendQueue ?s = [\<lparr>getInterface = IF_WEBSOCKET, getMessage = request_frame\<rparr>,
      \<lparr>getInterface = IF_UDP, getMessage = event_frame\<rparr>]"
    and c: "transport_calls ?s = []" and k: "millis_calls ?s = 0"
    by (simp_all add: held_engine_def engine0_def)
  have tagged: "\<forall>m \<in> set (sendQueue ?s). getInterface m \<noteq> IF_UNKNOWN"
    by (simp add: q)
  have d1: "deserializeJson example_env request_frame = request_doc ''kP''"
    and d2: "deserializeJson example_env event_frame = event_doc"
    by (simp_all add: example_env_def request_frame_def event_frame_def timestamp_frame_def
        quoted_frame_def forged_frame_def)
  have w1: "wire_text example_env key ts request_frame = ''request''"
    and w2: "wire_text example_env key ts event_frame = ''event''" for key ts
    unfolding wire_text_def d1 d2
    by (simp_all add: example_env_def request_doc_def event_doc_def setMember2_def)
  have sends: "map (frame_send example_env ?s) (enumerate (millis_calls ?s) (sendQueue ?s))
      = [WsSend ''request'', UdpSend ''event'']"
    unfolding q k by (simp add: frame_send_def w1 w2)
  from handleSendQueue_holds_then_flushes [of held_engine example_env] held
  have "handleSendQueue example_env held_engine = held_engine" by blast
  moreover from handleSendQueue_holds_then_flushes [of ?s example_env] flowing tagged
  have "sendQueue (handleSendQueue example_env ?s) = []"
    and "transport_calls (handleSendQueue example_env ?s) =
      transport_calls ?s @ map (frame_send example_env ?s)
        (enumerate (millis_calls ?s) (sendQueue ?s))"
    by blast+
  ultimately show ?thesis
    unfolding sends c by simp
qed

subsection \<open>Every frame the engine queues is tagged with a transport\<close>

text \<open>
  The hypothesis of the last part of the result above holds in every state the engine
  reaches from one with tagged queues: a poll keeps both queues tagged (the transports tag
  what they deliver, and a response inherits the tag of its request), and so does
  submitting an envelope.
\<close>

lemma transport_tagged_iff:
  "transport_tagged q = (\<forall>m \<in> set q. getInterface m \<noteq> IF_UNKNOWN)"
  by (simp add: transport_tagged_def list_all_iff)

lemma receive_frame_queues:
  "receiveQueue (receive_frame e s m) = receiveQueue s \<and>
   (sendQueue (receive_frame e s m) = sendQueue s \<or>
    (\<exists>t. sendQueue (receive_frame e s m) =
       sendQueue s @ [\<lparr>getInterface = getInterface m, getMessage = t\<rparr>]))"
  by (simp add: receive_frame_def handleRequest_def handleResponse_def extractTimestamp_def
      millis_read_def Let_def)

lemma receive_frame_tagged:
  assumes "getInterface m \<noteq> IF_UNKNOWN" and "transport_tagged (sendQueue s)"
  shows "transport_tagged (sendQueue (receive_frame e s m))"
  using receive_frame_queues [of e s m] assms
  by (auto simp: transport_tagged_def)

lemma receiveQueue_loop_tagged:
  "receiveQueue s = q \<Longrightarrow> transport_tagged q \<Longrightarrow> transport_tagged (sendQueue s) \<Longrightarrow>
   receiveQueue (receiveQueue_loop e s) = [] \<and>
   transport_tagged (sendQueue (receiveQueue_loop e s))"
proof (induction q arbitrary: s)
  case Nil
  then show ?case by (subst (1 2) receiveQueue_loop.simps) simp
next
  case (Cons m q)
  let ?s1 = "receive_frame e (s\<lparr>receiveQueue := q\<rparr>) m"
  have step: "receiveQueue_loop e s = receiveQueue_loop e ?s1"
    using Cons.prems(1) by (subst receiveQueue_loop.simps) simp
  have q1: "receiveQueue ?s1 = q"
    using receive_frame_queues [of e "s\<lparr>receiveQueue := q\<rparr>" m] by simp
  from Cons.prems(2) have m: "getInterface m \<noteq> IF_UNKNOWN" and q: "transport_tagged q"
    by (simp_all add: transport_tagged_def)
  have "transport_tagged (sendQueue ?s1)"
    using Cons.prems(3) by (intro receive_frame_tagged [OF m]) simp
  from Cons.IH [OF q1 q this] show ?case
    unfolding step .
qed

lemma handleReceiveQueue_tagged:
  assumes "transport_tagged (receiveQueue s)" and "transport_tagged (sendQueue s)"
  shows "receiveQueue (handleReceiveQueue e s) = [] \<and>
         transport_tagged (sendQueue (handleReceiveQueue e s))"
proof (cases "receiveQueue s = []")
  case True
  with assms show ?thesis by (simp add: handleReceiveQueue_def)
next
  case False
  with receiveQueue_loop_tagged [OF refl assms, of e] show ?thesis
    by (simp add: handleReceiveQueue_def)
qed

lemma handleSendQueue_queues:
  "receiveQueue (handleSendQueue e s) = receiveQueue s \<and>
   (sendQueue (handleSendQueue e s) = sendQueue s \<or> sendQueue (handleSendQueue e s) = [])"
proof (cases "isConnected s \<and> baseTimestamp s \<noteq> 0")
  case True
  then have "handleSendQueue e s = sendQueue_loop e s"
    by (simp add: handleSendQueue_def)
  then show ?thesis
    by (simp add: sendQueue_loop_eq [OF refl])
next
  case False
  then have "handleSendQueue e s = s"
    by (auto simp: handleSendQueue_def)
  then show ?thesis by simp
qed

lemma connect_keeps_queues:
  "receiveQueue (connect e s) = receiveQueue s \<and> sendQueue (connect e s) = sendQueue s"
  by (simp add: connect_def websocket_begin_def transport_call_def split: prod.splits)

lemma poll_queues:
  "receiveQueue (udp_handle inp (websocket_handle inp s)) =
     receiveQueue s
       @ map (\<lambda>m. \<lparr>getInterface = IF_WEBSOCKET, getMessage = m\<rparr>) (ws_frames inp)
       @ map (\<lambda>m. \<lparr>getInterface = IF_UDP, getMessage = m\<rparr>) (udp_frames inp) \<and>
   sendQueue (udp_handle inp (websocket_handle inp s)) = sendQueue s"
  by (simp add: udp_handle_def websocket_handle_def transport_call_def)

lemma handle_keeps_frames_tagged:
  assumes "transport_tagged (receiveQueue s)" and "transport_tagged (sendQueue s)"
  shows "transport_tagged (receiveQueue (handle e inp s)) \<and>
         transport_tagged (sendQueue (handle e inp s))"
proof (cases "begin_flag s")
  case False
  then have "receiveQueue (handle e inp s) = receiveQueue s \<and>
      sendQueue (handle e inp s) = sendQueue s"
    by (simp add: handle_def)
  with assms show ?thesis by simp
next
  case True
  let ?s1 = "if \<not> isConnected s then connect e s else s"
  let ?s3 = "udp_handle inp (websocket_handle inp ?s1)"
  have s1: "receiveQueue ?s1 = receiveQueue s \<and> sendQueue ?s1 = sendQueue s"
    by (simp add: connect_keeps_queues)
  have r3: "transport_tagged (receiveQueue ?s3)" and q3: "transport_tagged (sendQueue ?s3)"
    using assms s1 poll_queues [of inp ?s1]
    by (simp_all add: transport_tagged_def list_all_iff del: if_not_P if_P split del: if_split)
      auto
  have h: "handle e inp s = handleSendQueue e (handleReceiveQueue e ?s3)"
    using True by (simp add: handle_def Let_def)
  from handleReceiveQueue_tagged [OF r3 q3, of e]
    handleSendQueue_queues [of e "handleReceiveQueue e ?s3"]
  show ?thesis
    unfolding h by (auto simp: transport_tagged_def)
qed

lemma sendMessage_keeps_frames_tagged:
  "transport_tagged (sendQueue s) \<Longrightarrow> transport_tagged (sendQueue (sendMessage e s j))"
  by (simp add: sendMessage_def transport_tagged_def)

section \<open>Submitting envelopes\<close>

text \<open>
  Claim C3, as stated, fails: an envelope submitted with \<^verbatim>\<open>sendMessage\<close> while the
  transport is not connected (and BaseTimestamp is unsynchronised) is not placed in the
  outbound queue.
\<close>

theorem sendMessage_offline_drops:
  "\<not> isConnected engine0 \<and> baseTimestamp engine0 = 0 \<and>
   sendQueue (sendMessage example_env engine0 event_doc) = []"
  by (simp add: sendMessage_def isConnected_def engine0_def)

text \<open>
  Claim C3, amended: an envelope submitted with \<^verbatim>\<open>sendMessage\<close> while the transport is
  connected is appended to the outbound queue, tagged for the websocket, whether or not
  BaseTimestamp is synchronised, and while BaseTimestamp is unsynchronised the send
  processor leaves it there; while the transport is not connected, \<^verbatim>\<open>sendMessage\<close>
  changes nothing: the envelope is dropped.
\<close>

theorem sendMessage_queues_when_connected:
  "(isConnected s \<longrightarrow>
      sendQueue (sendMessage e s jsonMessage) =
        sendQueue s @ [\<lparr>getInterface = IF_WEBSOCKET, getMessage = serializeJson e jsonMessage\<rparr>] \<and>
      (baseTimestamp s = 0 \<longrightarrow>
         handleSendQueue e (sendMessage e s jsonMessage) = sendMessage e s jsonMessage)) \<and>
   (\<not> isConnected s \<longrightarrow> sendMessage e s jsonMessage = s)"
  by (simp add: sendMessage_def handleSendQueue_def isConnected_def)

theorem sendMessage_queues_when_connected_witness:
  "sendQueue (sendMessage example_env (engine0\<lparr>ws_isConnected := True\<rparr>) event_doc) =
     [\<lparr>getInterface = IF_WEBSOCKET, getMessage = ''event''\<rparr>] \<and>
   handleSendQueue example_env (sendMessage example_env (engine0\<lparr>ws_isConnected := True\<rparr>) event_doc)
     = sendMessage example_env (engine0\<lparr>ws_isConnected := True\<rparr>) event_doc \<and>
   sendMessage example_env engine0 event_doc = engine0"
proof -
  let ?s = "engine0\<lparr>ws_isConnected := True\<rparr>"
  have c: "isConnected ?s" "baseTimestamp ?s = 0" "sendQueue ?s = []" "\<not> isConnected engine0"
    by (simp_all add: isConnected_def engine0_def)
  have t: "serializeJson example_env event_doc = ''event''"
    by (simp add: example_env_def event_doc_def)
  show ?thesis
    using sendMessage_queues_when_connected [of ?s example_env event_doc]
      sendMessage_queues_when_connected [of engine0 example_env event_doc] c t
    by simp
qed

section \<open>Timestamp synchronisation results\<close>

lemma extractTimestamp_top:
  "asULong_or0 (getMember message ''timestamp'') \<noteq> 0 \<Longrightarrow>
   extractTimestamp e s message =
     s\<lparr>millis_calls := Suc (millis_calls s),
       baseTimestamp := asULong_or0 (getMember message ''timestamp'')
                          - millis e (millis_calls s) div 1000\<rparr>"
  by (simp add: extractTimestamp_def millis_read_def Let_def)

text \<open>
  Claim C7: with \<open>T\<close> the value read from the top-level \<^verbatim>\<open>timestamp\<close> field and \<open>C\<close> the
  value read from the payload's \<^verbatim>\<open>createdAt\<close> field of a verified frame, a non-zero \<open>T\<close>
  sets BaseTimestamp from \<open>T\<close> whatever \<open>C\<close> is; \<open>C\<close> is used only when \<open>T\<close> is zero and
  \<open>C\<close> is not; and when both are zero the engine is left as it was, so a zero from either
  source never changes BaseTimestamp.
\<close>

theorem extractTimestamp_priority:
  "let T = asULong_or0 (getMember message ''timestamp'');
       C = asULong_or0 (getMember (getMember message ''payload'') ''createdAt'');
       now = millis e (millis_calls s) div 1000;
       s' = extractTimestamp e s message
   in (T \<noteq> 0 \<longrightarrow> baseTimestamp s' = T - now) \<and>
      (T = 0 \<and> C \<noteq> 0 \<longrightarrow> baseTimestamp s' = C - now) \<and>
      (T = 0 \<and> C = 0 \<longrightarrow> s' = s)"
  by (simp add: extractTimestamp_def millis_read_def Let_def)

theorem extractTimestamp_priority_witness:
  "baseTimestamp (extractTimestamp example_env engine0 both_timestamps_doc) = 1689999995 \<and>
   extractTimestamp example_env engine0 zero_timestamps_doc = engine0"
proof -
  have m: "millis example_env (millis_calls engine0) div 1000 = 5"
    by (simp add: example_env_def engine0_def)
  have T: "asULong_or0 (getMember both_timestamps_doc ''timestamp'') = 1690000000"
    by (simp add: both_timestamps_doc_def)
  have Z: "asULong_or0 (getMember zero_timestamps_doc ''timestamp'') = 0"
     "asULong_or0 (getMember (getMember zero_timestamps_doc ''payload'') ''createdAt'') = 0"
    by (simp_all add: zero_timestamps_doc_def)
  have "baseTimestamp (extractTimestamp example_env engine0 both_timestamps_doc) = 1690000000 - 5"
    using extractTimestamp_priority [of both_timestamps_doc example_env engine0] m T
    by (simp add: Let_def)
  moreover have "extractTimestamp example_env engine0 zero_timestamps_doc = engine0"
    using extractTimestamp_priority [of zero_timestamps_doc example_env engine0] Z
    by (simp add: Let_def)
  ultimately show ?thesis by simp
qed

lemma handleRequest_baseTimestamp:
  "baseTimestamp (handleRequest e s j i) = baseTimestamp s"
  by (simp add: handleRequest_def Let_def)

lemma receive_frame_baseTimestamp:
  assumes "sigMatch (signatureGate e (signingKey s) (getMessage m) (deserializeJson e (getMessage m)))"
    and "asULong_or0 (getMember (deserializeJson e (getMessage m)) ''timestamp'') = T"
    and "T \<noteq> 0"
  shows "baseTimestamp (receive_frame e s m) = T - millis e (millis_calls s) div 1000"
  using assms
  by (simp add: receive_frame_def Let_def handleRequest_baseTimestamp handleResponse_def
      extractTimestamp_top)

text \<open>
  What \<^verbatim>\<open>getTimestamp()\<close> returns after a synchronising frame: after a frame that passes
  the gate and carries the non-zero top-level timestamp \<open>T\<close> has been processed in state
  \<open>s\<close>, the call in any later state \<open>s2\<close> that still has that BaseTimestamp returns, in
  32-bit unsigned arithmetic, \<open>T\<close> plus the difference of the two clock readings in whole
  seconds. That is \<open>T\<close> plus the seconds elapsed only as long as neither the clock nor
  the sum has wrapped around.
\<close>

theorem getTimestamp_after_sync:
  assumes "sigMatch (signatureGate e (signingKey s) (getMessage m) (deserializeJson e (getMessage m)))"
    and "asULong_or0 (getMember (deserializeJson e (getMessage m)) ''timestamp'') = T"
    and "T \<noteq> 0"
    and "baseTimestamp s2 = baseTimestamp (receive_frame e s m)"
  shows "fst (getTimestamp e s2) =
           T + (millis e (millis_calls s2) div 1000 - millis e (millis_calls s) div 1000) \<and>
         (millis e (millis_calls s) \<le> millis e (millis_calls s2) \<and>
          unat T + (unat (millis e (millis_calls s2)) div 1000
                    - unat (millis e (millis_calls s)) div 1000) < 2 ^ 32 \<longrightarrow>
          unat (fst (getTimestamp e s2)) =
            unat T + (unat (millis e (millis_calls s2)) div 1000
                      - unat (millis e (millis_calls s)) div 1000))"
proof -
  let ?a = "millis e (millis_calls s)" and ?b = "millis e (millis_calls s2)"
  have eq: "fst (getTimestamp e s2) = T + (?b div 1000 - ?a div 1000)"
    using assms(4) receive_frame_baseTimestamp [OF assms(1-3)]
    by (simp add: getTimestamp_def millis_read_def)
  have nat: "unat (T + (?b div 1000 - ?a div 1000)) =
      unat T + (unat ?b div 1000 - unat ?a div 1000)"
    if le: "?a \<le> ?b"
      and bound: "unat T + (unat ?b div 1000 - unat ?a div 1000) < 2 ^ 32"
  proof -
    have "unat ?a div 1000 \<le> unat ?b div 1000"
      using le by (simp add: word_le_nat_alt div_le_mono)
    then have "?a div 1000 \<le> ?b div 1000"
      by (simp add: word_le_nat_alt unat_div)
    then have "unat (?b div 1000 - ?a div 1000) = unat ?b div 1000 - unat ?a div 1000"
      by (simp add: unat_sub unat_div)
    then show ?thesis
      using bound by (simp add: unat_add_lem [THEN iffD1])
  qed
  show ?thesis using eq nat by simp
qed

theorem getTimestamp_after_sync_witness:
  "fst (getTimestamp example_env
         ((receive_frame example_env engine0
            \<lparr>getInterface = IF_WEBSOCKET, getMessage = timestamp_frame\<rparr>)
          \<lparr>millis_calls := 120\<rparr>)) = 1690000120"
proof -
  let ?m = "\<lparr>getInterface = IF_WEBSOCKET, getMessage = timestamp_frame\<rparr>"
  let ?s2 = "(receive_frame example_env engine0 ?m)\<lparr>millis_calls := 120\<rparr>"
  have gate: "sigMatch (signatureGate example_env (signingKey engine0) (getMessage ?m)
      (deserializeJson example_env (getMessage ?m)))"
    using bypass_iff [of example_env "signingKey engine0" timestamp_frame
        "deserializeJson example_env timestamp_frame"]
    by (simp add: timestamp_frame_def timestamp_prefix_def)
  have T: "asULong_or0 (getMember (deserializeJson example_env (getMessage ?m)) ''timestamp'')
      = 1690000000"
    by (simp add: example_env_def)
  have "fst (getTimestamp example_env ?s2) =
      1690000000 + (millis example_env (millis_calls ?s2) div 1000
                    - millis example_env (millis_calls engine0) div 1000)"
    using getTimestamp_after_sync [OF gate T, of ?s2] by simp
  then show ?thesis
    by (simp add: example_env_def engine0_def)
qed

text \<open>
  Claim C8 at a clock that wraps around: the frame \<^verbatim>\<open>{"timestamp":1690000000}\<close> is
  processed when \<^verbatim>\<open>millis()\<close> reads 4294967000, and \<^verbatim>\<open>getTimestamp()\<close> is called
  1296 ms later, when the 32-bit counter has passed zero and reads 1000. One whole second
  has elapsed, so the claim gives 1690000001; the code returns 1685705034, which is
  4294966 seconds before the server's time.
\<close>

theorem getTimestamp_after_millis_rollover:
  "millis rollover_env 0 = 4294967000 \<and> millis rollover_env 1 = 1000 \<and>
   baseTimestamp (receive_frame rollover_env engine0
       \<lparr>getInterface = IF_WEBSOCKET, getMessage = timestamp_frame\<rparr>) = 1685705033 \<and>
   fst (getTimestamp rollover_env
         (receive_frame rollover_env engine0
            \<lparr>getInterface = IF_WEBSOCKET, getMessage = timestamp_frame\<rparr>)) = 1685705034 \<and>
   (1685705034 :: ulong) \<noteq> 1690000000 + 1"
proof -
  let ?m = "\<lparr>getInterface = IF_WEBSOCKET, getMessage = timestamp_frame\<rparr>"
  have clock: "millis rollover_env 0 = 4294967000" "millis rollover_env 1 = 1000"
    "millis rollover_env (Suc 0) = 1000"
    by (simp_all add: rollover_env_def)
  have gate: "sigMatch (signatureGate rollover_env (signingKey engine0) (getMessage ?m)
      (deserializeJson rollover_env (getMessage ?m)))"
    using bypass_iff [of rollover_env "signingKey engine0" timestamp_frame
        "deserializeJson rollover_env timestamp_frame"]
    by (simp add: timestamp_frame_def timestamp_prefix_def)
  have T: "asULong_or0 (getMember (deserializeJson rollover_env (getMessage ?m)) ''timestamp'')
      = 1690000000"
    by (simp add: rollover_env_def example_env_def)
  have calls: "millis_calls (receive_frame rollover_env engine0 ?m) = 1"
    using gate T
    by (simp add: receive_frame_def Let_def extractTimestamp_def millis_read_def
        handleRequest_def handleResponse_def engine0_def)
  have base: "baseTimestamp (receive_frame rollover_env engine0 ?m) = 1685705033"
    using receive_frame_baseTimestamp [OF gate T] clock
    by (simp add: engine0_def)
  have "fst (getTimestamp rollover_env (receive_frame rollover_env engine0 ?m)) = 1685705034"
    by (simp add: getTimestamp_def millis_read_def base calls clock)
  with clock base show ?thesis by simp
qed

section \<open>Connecting without a usable device\<close>

lemma deviceList_loop_no_valid:
  "\<forall>dev \<in> set ds. \<not> DeviceId_isValid e (getDeviceId dev) \<Longrightarrow> deviceList_loop e ds acc = acc"
  by (induction ds arbitrary: acc) (auto split: prod.splits)

lemma connect_no_valid:
  "\<forall>dev \<in> set (devices s). \<not> DeviceId_isValid e (getDeviceId dev) \<Longrightarrow>
   connect e s = s\<lparr>begin_flag := False\<rparr>"
  by (simp add: connect_def deviceList_loop_no_valid)

lemma handle_disabled:
  "\<not> begin_flag s \<Longrightarrow> handle e inp s = s\<lparr>begin_error := True\<rparr>"
  by (simp add: handle_def)

lemma handles_disabled:
  "\<not> begin_flag s \<Longrightarrow> inps \<noteq> [] \<Longrightarrow>
   foldl (\<lambda>s inp. handle e inp s) s inps = s\<lparr>begin_error := True\<rparr>"
proof (induction inps arbitrary: s)
  case Nil
  then show ?case by simp
next
  case (Cons inp inps)
  show ?case
  proof (cases "inps = []")
    case True
    with Cons.prems show ?thesis by (simp add: handle_disabled)
  next
    case False
    with Cons.prems Cons.IH [of "s\<lparr>begin_error := True\<rparr>"] show ?thesis
      by (simp add: handle_disabled)
  qed
qed

text \<open>
  Claim C6: when no device of the registry has a valid id, \<^verbatim>\<open>connect()\<close> only clears
  the enabled flag \<^verbatim>\<open>_begin\<close>: it makes no transport call, so no \<^verbatim>\<open>begin\<close>; and any
  number of later \<^verbatim>\<open>handle()\<close> calls, whatever the transports would deliver, leave
  the engine as it is, but for the flag that the error has been reported.
\<close>

theorem connect_without_valid_device_disables:
  assumes "\<forall>dev \<in> set (devices s). \<not> DeviceId_isValid e (getDeviceId dev)"
  shows "connect e s = s\<lparr>begin_flag := False\<rparr> \<and>
         transport_calls (connect e s) = transport_calls s \<and>
         begin_flag (connect e s) = False \<and>
         (\<forall>inps. inps \<noteq> [] \<longrightarrow>
            foldl (\<lambda>s inp. handle e inp s) (connect e s) inps
              = s\<lparr>begin_flag := False, begin_error := True\<rparr>)"
  using connect_no_valid [OF assms] handles_disabled [of "s\<lparr>begin_flag := False\<rparr>" _ e]
  by simp

theorem connect_without_valid_device_disables_witness:
  "transport_calls (connect example_env unusable_engine) = [] \<and>
   begin_flag (connect example_env unusable_engine) = False \<and>
   foldl (\<lambda>s inp. handle example_env inp s) (connect example_env unusable_engine)
     [poll_example, poll_example]
     = unusable_engine\<lparr>begin_flag := False, begin_error := True\<rparr>"
proof -
  have none: "\<forall>dev \<in> set (devices unusable_engine).
      \<not> DeviceId_isValid example_env (getDeviceId dev)"
    by (simp add: unusable_engine_def engine0_def example_env_def)
  note disabled = connect_without_valid_device_disables [OF none]
  have calls: "transport_calls unusable_engine = []"
    by (simp add: unusable_engine_def engine0_def)
  have polls: "foldl (\<lambda>s inp. handle example_env inp s) (connect example_env unusable_engine)
      [poll_example, poll_example]
      = unusable_engine\<lparr>begin_flag := False, begin_error := True\<rparr>"
    using disabled [THEN conjunct2, THEN conjunct2, THEN conjunct2, THEN spec,
        of "[poll_example, poll_example]"]
    by simp
  from disabled calls polls show ?thesis by simp
qed

section \<open>Stopping and connecting again\<close>

lemma stop_queues:
  "receiveQueue (stop s) = receiveQueue s \<and> sendQueue (stop s) = sendQueue s"
  by (simp add: stop_def websocket_stop_def transport_call_def)

lemma connect_queues:
  "receiveQueue (connect e s) = receiveQueue s \<and> sendQueue (connect e s) = sendQueue s"
  by (simp add: connect_def websocket_begin_def transport_call_def split: prod.splits)

lemma stop_connect_disabled: "begin_flag (connect e (stop s)) = False"
  by (simp add: connect_def stop_def websocket_stop_def websocket_begin_def transport_call_def
      split: prod.splits)

lemma stop_connect_handle:
  "handle e inp (connect e (stop s)) = (connect e (stop s))\<lparr>begin_error := True\<rparr>"
  using stop_connect_disabled [of e s] by (simp add: handle_def)

text \<open>
  The same happens on the engine's own path through \<^verbatim>\<open>reconnect()\<close>: creating a device
  with \<^verbatim>\<open>operator[]\<close> while connected first enables the engine (in \<^verbatim>\<open>add\<close>) and then
  leaves it disabled.
\<close>

lemma new_device_while_connected_disables:
  assumes "getDevice s (getDeviceId newDevice) = None" and "isConnected s"
  shows "begin_flag (snd (getDeviceInstance e s newDevice)) = False"
proof -
  have "isConnected (add e s newDevice)"
    using assms(2) by (simp add: add_def isConnected_def Let_def)
  with assms(1) show ?thesis
    by (simp add: getDeviceInstance_def Let_def reconnect_def stop_connect_disabled)
qed

text \<open>
  For comparison: a poll of the running session of the example, with nothing stopped,
  sends the queued frame and leaves the outbound queue empty.
\<close>

lemma running_engine_poll_drains:
  "sendQueue (handle example_env poll_example running_engine) = [] \<and>
   transport_calls (handle example_env poll_example running_engine)
     = [WsHandle, UdpHandle, WsSend ''request'']"
proof -
  let ?s3 = "udp_handle poll_example (websocket_handle poll_example running_engine)"
  have h: "handle example_env poll_example running_engine =
      handleSendQueue example_env (handleReceiveQueue example_env ?s3)"
    by (simp add: handle_def Let_def running_engine_def engine0_def isConnected_def)
  have s3: "?s3 = running_engine\<lparr>transport_calls := [WsHandle, UdpHandle],
      receiveQueue := [\<lparr>getInterface = IF_WEBSOCKET, getMessage = timestamp_frame\<rparr>]\<rparr>"
    by (simp add: udp_handle_def websocket_handle_def transport_call_def poll_example_def
        running_engine_def engine0_def)
  have doc: "deserializeJson example_env timestamp_frame = JObject [(''timestamp'', JInt 1690000000)]"
    by (simp add: example_env_def)
  have gate: "signatureGate example_env key timestamp_frame doc = Bypassed" for key doc
    by (simp add: bypass_iff timestamp_frame_def timestamp_prefix_def)
  have r: "handleReceiveQueue example_env ?s3 =
      running_engine\<lparr>transport_calls := [WsHandle, UdpHandle], receiveQueue := [],
        millis_calls := 1, baseTimestamp := 1689999995\<rparr>"
    unfolding s3
    apply (simp add: handleReceiveQueue_def)
    apply (subst receiveQueue_loop.simps)
    apply (simp add: receive_frame_def doc gate Let_def extractTimestamp_def millis_read_def
        stringIs_def handleResponse_def)
    apply (subst receiveQueue_loop.simps)
    apply (simp add: running_engine_def engine0_def example_env_def)
    done
  have d1: "deserializeJson example_env request_frame = request_doc ''kP''"
    by (simp add: example_env_def request_frame_def timestamp_frame_def quoted_frame_def)
  have w1: "wire_text example_env key ts request_frame = ''request''" for key ts
    unfolding wire_text_def d1
    by (simp add: example_env_def request_doc_def setMember2_def)
  show ?thesis
    unfolding h r
    by (simp add: handleSendQueue_flush isConnected_def running_engine_def engine0_def
        frame_sends_def w1)
qed

text \<open>
  Claim C9 at a running session with a frame in the outbound queue: \<^verbatim>\<open>stop()\<close> leaves
  the queues as they are, but after \<^verbatim>\<open>stop()\<close> and \<^verbatim>\<open>connect()\<close>, which is what
  \<^verbatim>\<open>reconnect()\<close> does, the enabled flag is still false, so the poll call returns at
  once: the frame stays queued, and the transports are neither polled nor sent anything.
\<close>

theorem stop_connect_handle_keeps_frames_queued:
  "sendQueue (stop running_engine) = sendQueue running_engine \<and>
   receiveQueue (stop running_engine) = receiveQueue running_engine \<and>
   begin_flag (reconnect example_env running_engine) = False \<and>
   sendQueue (handle example_env poll_example (connect example_env (stop running_engine)))
     = [\<lparr>getInterface = IF_WEBSOCKET, getMessage = request_frame\<rparr>] \<and>
   transport_calls (handle example_env poll_example (connect example_env (stop running_engine)))
     = [WsStop, WsBegin ''ws.sinric.pro'' ''key'' ''A'']"
proof -
  have "connect example_env (stop running_engine) =
      running_engine\<lparr>begin_flag := False, ws_isConnected := False,
        transport_calls := [WsStop, WsBegin ''ws.sinric.pro'' ''key'' ''A'']\<rparr>"
    by (simp add: connect_def stop_def websocket_stop_def websocket_begin_def transport_call_def
        running_engine_def engine0_def example_env_def)
  then show ?thesis
    using stop_connect_handle [of example_env poll_example running_engine]
      stop_queues [of running_engine]
    by (simp add: reconnect_def running_engine_def engine0_def)
qed

section \<open>Request dispatch\<close>

lemma nth_Cons_shift: "Suc i \<le> p \<Longrightarrow> (x # xs) ! (p - i) = xs ! (p - Suc i)"
proof -
  assume "Suc i \<le> p"
  then have "p - i = Suc (p - Suc i)" by arith
  then show ?thesis by simp
qed

lemma matching_positions_member:
  "p \<in> set (matching_positions did ds i) \<Longrightarrow>
   i \<le> p \<and> p < i + length ds \<and> Some (getDeviceId (ds ! (p - i))) = did"
proof (induction ds arbitrary: i)
  case Nil
  then show ?case by simp
next
  case (Cons dev ds)
  show ?case
  proof (cases "p = i \<and> Some (getDeviceId dev) = did")
    case True
    then show ?thesis by simp
  next
    case False
    with Cons.prems have "p \<in> set (matching_positions did ds (Suc i))"
      by (auto split: if_splits)
    from Cons.IH [OF this] show ?thesis
      by (simp add: nth_Cons_shift)
  qed
qed

lemma matching_positions_distinct: "distinct (matching_positions did ds i)"
proof (induction ds arbitrary: i)
  case Nil
  show ?case by simp
next
  case (Cons dev ds)
  have "i \<notin> set (matching_positions did ds (Suc i))"
    using matching_positions_member [of i did ds "Suc i"] by auto
  with Cons.IH [of "Suc i"] show ?case by simp
qed

lemma dispatch_device_invoked:
  "d_invoked (dispatch_device a inst v dev i st) = d_invoked st @ [i]"
  by (simp add: dispatch_device_def Let_def)

lemma dispatch_device_success:
  "d_success (dispatch_device a inst v dev i st) =
     hr_success (dev_handleRequest dev
       \<lparr>req_action = a, req_instance = inst, request_value = v,
        response_value = asObject (getMember (getMember (d_responseMessage st) ''payload'') ''value'')\<rparr>)"
  by (simp add: dispatch_device_def Let_def)

lemma devices_loop_done:
  "d_success st \<Longrightarrow> devices_loop did a inst v ds i st = st"
  by (induction ds arbitrary: i) simp_all


lemma devices_loop_prefix:
  "\<exists>n. d_invoked (devices_loop did a inst v ds i st) =
        d_invoked st @ take n (matching_positions did ds i)"
proof (induction ds arbitrary: i st)
  case Nil
  show ?case by simp
next
  case (Cons dev ds)
  show ?case
  proof (cases "Some (getDeviceId dev) = did")
    case False
    with Cons.IH [of "Suc i" st] show ?thesis by simp
  next
    case match: True
    show ?thesis
    proof (cases "d_success st")
      case True
      then have "devices_loop did a inst v (dev # ds) i st = st"
        by (rule devices_loop_done)
      then have "d_invoked (devices_loop did a inst v (dev # ds) i st) =
          d_invoked st @ take 0 (matching_positions did (dev # ds) i)"
        by simp
      then show ?thesis by blast
    next
      case False
      let ?st = "dispatch_device a inst v dev i st"
      from Cons.IH [of "Suc i" ?st] obtain n where
        "d_invoked (devices_loop did a inst v ds (Suc i) ?st) =
           d_invoked ?st @ take n (matching_positions did ds (Suc i))"
        by blast
      with match False have "d_invoked (devices_loop did a inst v (dev # ds) i st) =
          d_invoked st @ take (Suc n) (matching_positions did (dev # ds) i)"
        by (simp add: dispatch_device_invoked)
      then show ?thesis by blast
    qed
  qed
qed

lemma devices_loop_first:
  "\<not> d_success st \<Longrightarrow> matching_positions did ds i \<noteq> [] \<Longrightarrow>
   \<exists>rest. d_invoked (devices_loop did a inst v ds i st) =
        d_invoked st @ hd (matching_positions did ds i) # rest"
proof (induction ds arbitrary: i)
  case Nil
  then show ?case by simp
next
  case (Cons dev ds)
  show ?case
  proof (cases "Some (getDeviceId dev) = did")
    case False
    with Cons.IH [of "Suc i"] Cons.prems show ?thesis by simp
  next
    case True
    let ?st = "dispatch_device a inst v dev i st"
    from devices_loop_prefix [of did a inst v ds "Suc i" ?st] obtain n where
      "d_invoked (devices_loop did a inst v ds (Suc i) ?st) =
         d_invoked ?st @ take n (matching_positions did ds (Suc i))"
      by blast
    with True Cons.prems(1) have "d_invoked (devices_loop did a inst v (dev # ds) i st) =
        d_invoked st @ hd (matching_positions did (dev # ds) i)
          # take n (matching_positions did ds (Suc i))"
      by (simp add: dispatch_device_invoked)
    then show ?thesis by blast
  qed
qed

lemma devices_loop_all_failed:
  "\<not> d_success (devices_loop did a inst v ds i st) \<Longrightarrow>
   d_invoked (devices_loop did a inst v ds i st) = d_invoked st @ matching_positions did ds i"
proof (induction ds arbitrary: i st)
  case Nil
  show ?case by simp
next
  case (Cons dev ds)
  show ?case
  proof (cases "Some (getDeviceId dev) = did \<and> \<not> d_success st")
    case True
    let ?st = "dispatch_device a inst v dev i st"
    from True Cons.prems have "\<not> d_success (devices_loop did a inst v ds (Suc i) ?st)"
      by simp
    from Cons.IH [OF this] True show ?thesis
      by (simp add: dispatch_device_invoked)
  next
    case False
    show ?thesis
    proof (cases "d_success st")
      case True
      with Cons.prems show ?thesis by (simp add: devices_loop_done)
    next
      case nf: False
      with False have nm: "Some (getDeviceId dev) \<noteq> did" by simp
      with Cons.prems have "\<not> d_success (devices_loop did a inst v ds (Suc i) st)"
        by simp
      from Cons.IH [OF this] nm show ?thesis by simp
    qed
  qed
qed

lemma devices_loop_first_succeeds:
  "\<not> d_success st \<Longrightarrow> matching_positions did ds i \<noteq> [] \<Longrightarrow>
   hr_success (dev_handleRequest (ds ! (hd (matching_positions did ds i) - i))
     \<lparr>req_action = a, req_instance = inst, request_value = v,
      response_value = asObject (getMember (getMember (d_responseMessage st) ''payload'') ''value'')\<rparr>)
   \<Longrightarrow> d_invoked (devices_loop did a inst v ds i st) =
         d_invoked st @ [hd (matching_positions did ds i)]"
proof (induction ds arbitrary: i)
  case Nil
  then show ?case by simp
next
  case (Cons dev ds)
  show ?case
  proof (cases "Some (getDeviceId dev) = did")
    case True
    let ?st = "dispatch_device a inst v dev i st"
    from True Cons.prems(3) have "d_success ?st"
      by (simp add: dispatch_device_success)
    then have "devices_loop did a inst v ds (Suc i) ?st = ?st"
      by (rule devices_loop_done)
    with True Cons.prems(1) show ?thesis
      by (simp add: dispatch_device_invoked)
  next
    case False
    have ge: "Suc i \<le> hd (matching_positions did ds (Suc i))"
      if "matching_positions did ds (Suc i) \<noteq> []"
      using that matching_positions_member [of "hd (matching_positions did ds (Suc i))" did ds "Suc i"]
      by simp
    from False Cons.prems(2) have ne: "matching_positions did ds (Suc i) \<noteq> []" by simp
    have idx: "(dev # ds) ! (hd (matching_positions did ds (Suc i)) - i) =
        ds ! (hd (matching_positions did ds (Suc i)) - Suc i)"
      using ge [OF ne] by (rule nth_Cons_shift)
    from False Cons.prems(3) have "hr_success (dev_handleRequest
        (ds ! (hd (matching_positions did ds (Suc i)) - Suc i))
        \<lparr>req_action = a, req_instance = inst, request_value = v,
         response_value = asObject (getMember (getMember (d_responseMessage st) ''payload'') ''value'')\<rparr>)"
      by (simp add: idx)
    from Cons.IH [OF Cons.prems(1) ne this] False show ?thesis by simp
  qed
qed

lemma prepareResponse_fields:
  "getMember (getMember (prepareResponse requestMessage) ''payload'') ''value'' = JObject []"
  "getMember (getMember (prepareResponse requestMessage) ''payload'') ''success'' = JBool False"
  "getMember (getMember (prepareResponse requestMessage) ''payload'') ''type'' = JString ''response''"
  by (simp_all add: prepareResponse_def Let_def)


lemma run_dispatch_invoked:
  "d_invoked (run_dispatch s requestMessage) =
     d_invoked (devices_loop (request_deviceId requestMessage)
       (req_action (first_request requestMessage)) (req_instance (first_request requestMessage))
       (request_value (first_request requestMessage)) (devices s) 0
       (dispatch_init s requestMessage))"
  by (simp add: run_dispatch_def request_deviceId_def first_request_def Let_def)

lemma dispatch_init_fields:
  "d_invoked (dispatch_init s requestMessage) = []"
  "\<not> d_success (dispatch_init s requestMessage)"
  "d_responseMessage (dispatch_init s requestMessage) = prepareResponse requestMessage"
  by (simp_all add: dispatch_init_def)

lemma run_dispatch_prefix:
  "\<exists>n. d_invoked (run_dispatch s requestMessage) =
     take n (matching_positions (request_deviceId requestMessage) (devices s) 0)"
  using devices_loop_prefix [of "request_deviceId requestMessage" _ _ _ "devices s" 0
      "dispatch_init s requestMessage"]
  by (simp add: run_dispatch_invoked dispatch_init_fields)

lemma run_dispatch_first:
  "matching_positions (request_deviceId requestMessage) (devices s) 0 \<noteq> [] \<Longrightarrow>
   \<exists>rest. d_invoked (run_dispatch s requestMessage) =
     hd (matching_positions (request_deviceId requestMessage) (devices s) 0) # rest"
  using devices_loop_first [of "dispatch_init s requestMessage" "request_deviceId requestMessage"
      "devices s" 0]
  by (simp add: run_dispatch_invoked dispatch_init_fields)

lemma run_dispatch_all_failed:
  "\<not> d_success (run_dispatch s requestMessage) \<Longrightarrow>
   d_invoked (run_dispatch s requestMessage) =
     matching_positions (request_deviceId requestMessage) (devices s) 0"
  using devices_loop_all_failed [of "request_deviceId requestMessage" _ _ _ "devices s" 0
      "dispatch_init s requestMessage"]
  by (simp add: run_dispatch_def request_deviceId_def Let_def dispatch_init_fields)

lemma run_dispatch_first_succeeds:
  assumes "matching_positions (request_deviceId requestMessage) (devices s) 0 \<noteq> []"
    and "hr_success (dev_handleRequest
           (devices s ! hd (matching_positions (request_deviceId requestMessage) (devices s) 0))
           (first_request requestMessage))"
  shows "d_invoked (run_dispatch s requestMessage) =
     [hd (matching_positions (request_deviceId requestMessage) (devices s) 0)]"
proof -
  have "d_invoked (devices_loop (request_deviceId requestMessage)
       (req_action (first_request requestMessage)) (req_instance (first_request requestMessage))
       (request_value (first_request requestMessage)) (devices s) 0
       (dispatch_init s requestMessage)) =
     d_invoked (dispatch_init s requestMessage) @
       [hd (matching_positions (request_deviceId requestMessage) (devices s) 0)]"
  proof (rule devices_loop_first_succeeds)
    show "\<not> d_success (dispatch_init s requestMessage)"
      by (rule dispatch_init_fields)
    show "matching_positions (request_deviceId requestMessage) (devices s) 0 \<noteq> []"
      by (rule assms)
    show "hr_success (dev_handleRequest
         (devices s ! (hd (matching_positions (request_deviceId requestMessage) (devices s) 0) - 0))
         \<lparr>req_action = req_action (first_request requestMessage),
          req_instance = req_instance (first_request requestMessage),
          request_value = request_value (first_request requestMessage),
          response_value = asObject (getMember (getMember
            (d_responseMessage (dispatch_init s requestMessage)) ''payload'') ''value'')\<rparr>)"
      using assms(2)
      by (simp add: dispatch_init_fields prepareResponse_fields first_request_def Let_def)
  qed
  then show ?thesis
    by (simp add: run_dispatch_invoked dispatch_init_fields)
qed

lemma dispatch_device_returned:
  "d_returned (dispatch_device a inst v dev i st) =
     d_returned st @ [hr_success (dev_handleRequest dev
       \<lparr>req_action = a, req_instance = inst, request_value = v,
        response_value = asObject (getMember (getMember (d_responseMessage st) ''payload'') ''value'')\<rparr>)]"
  by (simp add: dispatch_device_def Let_def)

lemma trace_ok_all_failed:
  assumes "dispatch_trace_ok st" and "\<not> d_success st"
  shows "list_all (\<lambda>ok. \<not> ok) (d_returned st)"
proof (cases "d_returned st = []")
  case True
  then show ?thesis by simp
next
  case False
  then have split: "d_returned st = butlast (d_returned st) @ [last (d_returned st)]"
    by simp
  from assms False have "\<not> last (d_returned st)"
    by (simp add: dispatch_trace_ok_def)
  moreover from assms(1) have "list_all (\<lambda>ok. \<not> ok) (butlast (d_returned st))"
    by (simp add: dispatch_trace_ok_def)
  ultimately show ?thesis
    by (subst split) simp
qed

lemma dispatch_device_trace_ok:
  assumes "dispatch_trace_ok st" and "\<not> d_success st"
  shows "dispatch_trace_ok (dispatch_device a inst v dev i st)"
  using assms(1) trace_ok_all_failed [OF assms]
  by (simp add: dispatch_trace_ok_def dispatch_device_returned dispatch_device_invoked
      dispatch_device_success)

lemma devices_loop_trace_ok:
  "dispatch_trace_ok st \<Longrightarrow> dispatch_trace_ok (devices_loop did a inst v ds i st)"
proof (induction ds arbitrary: i st)
  case Nil
  then show ?case by simp
next
  case (Cons dev ds)
  show ?case
  proof (cases "Some (getDeviceId dev) = did \<and> \<not> d_success st")
    case True
    then have "dispatch_trace_ok (dispatch_device a inst v dev i st)"
      using Cons.prems by (simp add: dispatch_device_trace_ok)
    from Cons.IH [OF this] True show ?thesis by simp
  next
    case False
    with Cons.IH [OF Cons.prems] show ?thesis by auto
  qed
qed

lemma run_dispatch_trace_ok: "dispatch_trace_ok (run_dispatch s requestMessage)"
  unfolding run_dispatch_def Let_def
  by (rule devices_loop_trace_ok) (simp add: dispatch_trace_ok_def dispatch_init_def)

text \<open>
  Claim C4, as stated, fails: with two registry records for the id the request names, of
  which the first fails the request, the dispatcher invokes the handler of the first
  record and then the handler of the second one as well.
\<close>

theorem duplicate_id_invokes_second_handler:
  "matching_positions (request_deviceId (request_doc ''kP'')) (devices duplicate_engine) 0 = [0, 1] \<and>
   handler_calls (handleRequest example_env duplicate_engine (request_doc ''kP'') IF_WEBSOCKET)
     = [0, 1]"
  by (simp add: handleRequest_def run_dispatch_def dispatch_init_def dispatch_device_def
      prepareResponse_def setMember2_def request_deviceId_def request_doc_def
      duplicate_engine_def engine0_def failing_handler_def ok_handler_def Let_def)

text \<open>
  With three records for the id, of which the second is the first to handle the request,
  the third record's handler is not invoked.
\<close>

lemma triple_engine_stops_after_success:
  "d_invoked (run_dispatch triple_engine (request_doc ''kP'')) = [0, 1] \<and>
   d_returned (run_dispatch triple_engine (request_doc ''kP'')) = [False, True]"
  by (simp add: run_dispatch_def dispatch_init_def dispatch_device_def
      prepareResponse_def setMember2_def request_doc_def
      triple_engine_def engine0_def failing_handler_def ok_handler_def Let_def)

text \<open>
  Claim C4, amended: the handlers that the dispatcher invokes for a request are those of
  an initial stretch of the records whose device id matches, in registry order. So no
  record that does not match is invoked, and no record twice; when a record matches, the
  first matching record is invoked first. No handler is invoked once a handler has
  returned success: every handler invoked before the last invoked one returned failure,
  and the request's success is what the last invoked handler returned. So when the first
  matching handler returns success, no other handler is invoked; when the request ends
  without success, every matching record was invoked; and when at most one record
  matches, exactly that record is invoked.
\<close>

theorem dispatch_invokes_matching_until_success:
  "let d = run_dispatch s requestMessage;
       mp = matching_positions (request_deviceId requestMessage) (devices s) 0
   in handler_calls (handleRequest e s requestMessage Interface) = handler_calls s @ d_invoked d \<and>
      take (length (d_invoked d)) mp = d_invoked d \<and>
      distinct (d_invoked d) \<and>
      (\<forall>p \<in> set (d_invoked d).
         p < length (devices s) \<and>
         Some (getDeviceId (devices s ! p)) = request_deviceId requestMessage) \<and>
      (mp \<noteq> [] \<longrightarrow> d_invoked d \<noteq> [] \<and> hd (d_invoked d) = hd mp) \<and>
      (mp \<noteq> [] \<and>
       hr_success (dev_handleRequest (devices s ! hd mp) (first_request requestMessage))
         \<longrightarrow> d_invoked d = [hd mp]) \<and>
      length (d_returned d) = length (d_invoked d) \<and>
      (\<forall>ok \<in> set (butlast (d_returned d)). \<not> ok) \<and>
      d_success d = (d_returned d \<noteq> [] \<and> last (d_returned d)) \<and>
      (\<not> d_success d \<longrightarrow> d_invoked d = mp) \<and>
      (length mp \<le> 1 \<longrightarrow> d_invoked d = mp)"
proof -
  let ?d = "run_dispatch s requestMessage"
  let ?mp = "matching_positions (request_deviceId requestMessage) (devices s) 0"
  obtain n where n: "d_invoked ?d = take n ?mp"
    using run_dispatch_prefix by blast
  have calls: "handler_calls (handleRequest e s requestMessage Interface) =
      handler_calls s @ d_invoked ?d"
    by (simp add: handleRequest_def Let_def)
  have pre: "take (length (d_invoked ?d)) ?mp = d_invoked ?d"
    unfolding n by (simp add: min_def)
  have dist: "distinct (d_invoked ?d)"
    unfolding n by (simp add: matching_positions_distinct)
  have mem: "p < length (devices s) \<and>
      Some (getDeviceId (devices s ! p)) = request_deviceId requestMessage"
    if "p \<in> set (d_invoked ?d)" for p
  proof -
    from that have "p \<in> set ?mp"
      unfolding n by (rule in_set_takeD)
    from matching_positions_member [OF this] show ?thesis by simp
  qed
  have first: "d_invoked ?d \<noteq> [] \<and> hd (d_invoked ?d) = hd ?mp" if "?mp \<noteq> []"
    using run_dispatch_first [OF that] by auto
  have succ: "d_invoked ?d = [hd ?mp]"
    if "?mp \<noteq> [] \<and>
        hr_success (dev_handleRequest (devices s ! hd ?mp) (first_request requestMessage))"
    using that run_dispatch_first_succeeds by blast
  have failed: "d_invoked ?d = ?mp" if "\<not> d_success ?d"
    using that by (rule run_dispatch_all_failed)
  have single: "d_invoked ?d = ?mp" if le: "length ?mp \<le> 1"
  proof (cases "?mp")
    case Nil
    with n show ?thesis by simp
  next
    case (Cons p ps)
    with le have ps: "ps = []" by simp
    from Cons have "?mp \<noteq> []" by simp
    from first [OF this] have "d_invoked ?d \<noteq> []" by simp
    with n Cons ps show ?thesis by (cases n) simp_all
  qed
  have trace: "length (d_returned ?d) = length (d_invoked ?d)"
    "\<forall>ok \<in> set (butlast (d_returned ?d)). \<not> ok"
    "d_success ?d = (d_returned ?d \<noteq> [] \<and> last (d_returned ?d))"
    using run_dispatch_trace_ok [of s requestMessage]
    by (auto simp: dispatch_trace_ok_def list_all_iff)
  from calls pre dist mem first succ trace failed single show ?thesis
    unfolding Let_def by blast
qed

theorem dispatch_invokes_matching_until_success_witness:
  "handler_calls (handleRequest example_env duplicate_ok_engine (request_doc ''kP'') IF_UDP) = [0]"
proof -
  let ?s = duplicate_ok_engine and ?r = "request_doc ''kP''"
  have mp: "matching_positions (request_deviceId ?r) (devices ?s) 0 = [0, 1]"
    by (simp add: request_deviceId_def request_doc_def duplicate_ok_engine_def engine0_def)
  have ok: "hr_success (dev_handleRequest (devices ?s ! 0) (first_request ?r))"
    by (simp add: duplicate_ok_engine_def ok_handler_def)
  have none: "handler_calls ?s = []"
    by (simp add: duplicate_ok_engine_def engine0_def)
  note all = dispatch_invokes_matching_until_success [of ?s ?r example_env IF_UDP,
      unfolded Let_def mp]
  from all ok have "d_invoked (run_dispatch ?s ?r) = [0]"
    by simp
  with all none show ?thesis
    by simp
qed

section \<open>One response for every request\<close>








section \<open>The range controller\<close>

text \<open>
  Claim C10: for a request with action \<^verbatim>\<open>adjustRangeValue\<close> and a non-empty instance
  name, \<^verbatim>\<open>handleRangeController\<close> looks the instance up in the map of the generic
  \<^verbatim>\<open>setRangeValue\<close> callbacks: when that map has no entry for the instance, it
  returns false, invokes no callback and changes nothing, whatever the map of the generic
  \<^verbatim>\<open>adjustRangeValue\<close> callbacks holds for the instance.
\<close>

theorem adjust_tests_setRangeValue_map:
  assumes "req_action request = ''adjustRangeValue''"
    and "req_instance request \<noteq> []"
    and "genericSetRangeValueCallback rc (req_instance request) = None"
  shows "handleRangeController ops deviceId rc request =
           \<lparr>rc_return = False, rc_response_value = response_value request,
            rc_controller = rc, rc_called = []\<rparr>"
  using assms by (simp add: handleRangeController_def)

theorem adjust_tests_setRangeValue_map_witness:
  "genericAdjustRangeValueCallback rc_example ''speed'' \<noteq> None \<and>
   rc_return (handleRangeController int_float_ops ''dev'' rc_example adjust_request) = False \<and>
   rc_called (handleRangeController int_float_ops ''dev'' rc_example adjust_request) = []"
  using adjust_tests_setRangeValue_map [of adjust_request rc_example int_float_ops "''dev''"]
  by (simp add: rc_example_def adjust_request_def)

end
